theory Spec2Isabelle
  imports Complex_Main
begin

section \<open>JavaScript values used by the application\<close>

text \<open>
  \<open>x || null\<close> yields \<open>null\<close> when \<open>x\<close> is \<open>undefined\<close>, \<open>null\<close> or another falsy value:
  the number 0 and the empty string. An absent or null value is \<open>None\<close>.
\<close>

definition truthy_num :: "real \<Rightarrow> bool" where
  "truthy_num x = (x \<noteq> 0)"

definition truthy_id :: "nat \<Rightarrow> bool" where
  "truthy_id n = (n \<noteq> 0)"

definition truthy_str :: "string \<Rightarrow> bool" where
  "truthy_str s = (s \<noteq> [])"

definition or_null :: "('a \<Rightarrow> bool) \<Rightarrow> 'a option \<Rightarrow> 'a option" where
  "or_null truthy v = (case v of None \<Rightarrow> None | Some x \<Rightarrow> if truthy x then Some x else None)"

text \<open>\<open>String(n)\<close> for a non-negative integer: its decimal digits.\<close>

definition digit_char :: "nat \<Rightarrow> char" where
  "digit_char d = ''0123456789abcdefghijklmnopqrstuvwxyz'' ! d"

fun to_radix :: "nat \<Rightarrow> nat \<Rightarrow> string" where
  "to_radix b n =
     (if b < 2 \<or> n < b then [digit_char n] else to_radix b (n div b) @ [digit_char (n mod b)])"

definition toString :: "nat \<Rightarrow> string" where
  "toString n = to_radix 10 n"


text \<open>\<open>s.startsWith(p)\<close>, \<open>s.split(c)[0]\<close> and \<open>s.trim()\<close> on ASCII strings.\<close>

definition startsWith :: "string \<Rightarrow> string \<Rightarrow> bool" where
  "startsWith s p = (take (length p) s = p)"

definition split_first :: "char \<Rightarrow> string \<Rightarrow> string" where
  "split_first c s = takeWhile (\<lambda>x. x \<noteq> c) s"

definition is_space :: "char \<Rightarrow> bool" where
  "is_space c = (c \<in> set [CHR '' '', CHR 0x09, CHR 0x0A, CHR 0x0B, CHR 0x0C, CHR 0x0D])"

definition trim :: "string \<Rightarrow> string" where
  "trim s = rev (dropWhile is_space (rev (dropWhile is_space s)))"

section \<open>Data model\<close>

datatype Department =
    administrator | pr_communication | protocol_ceremonial | fnb | sponsorship_finance
  | logistics_operations | technical_it_support | evaluation_research_documentation
  | health_safety_welfare | executive | program_activities

datatype UserRole = admin | chairperson | protocol | registration_coordinator | committee

datatype UserStatus = active | inactive

datatype AttendanceStatus = Attend | Absent

text \<open>Rows of the relational store. Field names carry the table's initials.\<close>

record UserRow =
  u_id :: nat
  u_username :: string
  u_password :: string
  u_name :: string
  u_department :: Department
  u_role :: UserRole
  u_status :: UserStatus
  u_session_token :: "string option"
  u_session_updated_at :: "string option"

record CommitteeMember =
  cm_id :: nat
  cm_name :: string
  cm_department :: Department
  cm_created_at :: string

record AttendanceRecord =
  ar_id :: nat
  ar_committee_member_id :: nat
  ar_attendance_date :: string
  ar_status :: AttendanceStatus
  ar_photo_url :: "string option"
  ar_latitude :: "real option"
  ar_longitude :: "real option"
  ar_accuracy :: "real option"
  ar_address :: "string option"
  ar_check_in_time :: "string option"
  ar_created_at :: string
  ar_updated_at :: string
  ar_marked_by :: "nat option"

record Group =
  g_id :: nat
  g_name :: string
  g_created_at :: string

record ParticipantRow =
  p_id :: nat
  p_name :: string
  p_group_id :: "nat option"
  p_registered_at :: string
  p_created_at :: string
  p_registered_by :: "nat option"

text \<open>
  The store: the tables of \<open>schema-v3.sql\<close> with the columns its migrations add, the
  counters of the \<open>SERIAL\<close> keys, and the objects of the photo bucket.
\<close>

record database =
  users :: "UserRow list"
  committee_members :: "CommitteeMember list"
  attendance :: "AttendanceRecord list"
  attendance_seq :: nat
  groups :: "Group list"
  groups_seq :: nat
  participants :: "ParticipantRow list"
  participants_seq :: nat
  photos :: "string list"

text \<open>The logged-in user as the client holds it (\<open>AuthContext\<close>).\<close>

record User =
  user_id :: nat
  username :: string
  user_name :: string
  user_department :: Department
  role :: UserRole
  sessionToken :: "string option"

datatype error =
    MemberNotFound
  | StorageUnavailable
  | ConstraintViolation
  | ForeignKeyViolation
  | ValueTooLong
  | NoSingleRow
  | NumericFieldOverflow
  | TypeError
  | InvalidPassword

section \<open>Attendance ledger\<close>

record LocationData =
  latitude :: real
  longitude :: real
  accuracy :: real
  address :: "string option"
  timestamp :: "string option"

record MemberAttendance =
  member_id :: nat
  name :: string
  department :: Department
  attendance_id :: "nat option"
  attendance_date :: string
  status :: AttendanceStatus
  photo_url :: "string option"
  ma_latitude :: "real option"
  ma_longitude :: "real option"
  ma_accuracy :: "real option"
  ma_address :: "string option"
  check_in_time :: "string option"

text \<open>The state of \<open>AttendanceProvider\<close>.\<close>

record attendance_state =
  members :: "MemberAttendance list"
  selectedDate :: string
  isLoading :: bool
  att_error :: "string option"

text \<open>The object \<open>attendanceData\<close> that \<open>markAttendance\<close> sends to the store.\<close>

record attendanceData =
  ad_committee_member_id :: nat
  ad_attendance_date :: string
  ad_status :: AttendanceStatus
  ad_photo_url :: "string option"
  ad_latitude :: "real option"
  ad_longitude :: "real option"
  ad_accuracy :: "real option"
  ad_address :: "string option"
  ad_check_in_time :: "string option"

subsection \<open>The attendance table\<close>

definition attendance_key :: "AttendanceRecord \<Rightarrow> nat \<times> string" where
  "attendance_key r = (ar_committee_member_id r, ar_attendance_date r)"

text \<open>
  The columns \<open>latitude DECIMAL(10, 8)\<close>, \<open>longitude DECIMAL(11, 8)\<close> and
  \<open>accuracy DECIMAL(10, 2)\<close>: a value written to a column of scale \<open>s\<close> is rounded to \<open>s\<close>
  decimal places, a tie away from zero, and it is refused when the rounded value needs more
  than \<open>p\<close> digits. A number of the client is the real number its JSON text denotes.
  A timestamp is kept as the text that was sent; the column holds the instant it denotes.
\<close>

definition numeric_digits :: "nat \<Rightarrow> real \<Rightarrow> int" where
  "numeric_digits s x = \<lfloor>\<bar>x\<bar> * 10 ^ s + 1 / 2\<rfloor>"

definition numeric_round :: "nat \<Rightarrow> real \<Rightarrow> real" where
  "numeric_round s x = sgn x * of_int (numeric_digits s x) / 10 ^ s"

definition numeric_fits :: "nat \<Rightarrow> nat \<Rightarrow> real option \<Rightarrow> bool" where
  "numeric_fits p s v = (case v of None \<Rightarrow> True | Some x \<Rightarrow> numeric_digits s x < 10 ^ p)"

definition columns_fit :: "attendanceData \<Rightarrow> bool" where
  "columns_fit d \<longleftrightarrow>
     numeric_fits 10 8 (ad_latitude d) \<and> numeric_fits 11 8 (ad_longitude d) \<and>
     numeric_fits 10 2 (ad_accuracy d)"

definition new_attendance_row :: "nat \<Rightarrow> string \<Rightarrow> attendanceData \<Rightarrow> AttendanceRecord" where
  "new_attendance_row i db_now d =
     \<lparr> ar_id = i,
       ar_committee_member_id = ad_committee_member_id d,
       ar_attendance_date = ad_attendance_date d,
       ar_status = ad_status d,
       ar_photo_url = ad_photo_url d,
       ar_latitude = map_option (numeric_round 8) (ad_latitude d),
       ar_longitude = map_option (numeric_round 8) (ad_longitude d),
       ar_accuracy = map_option (numeric_round 2) (ad_accuracy d),
       ar_address = ad_address d,
       ar_check_in_time = ad_check_in_time d,
       ar_created_at = db_now,
       ar_updated_at = db_now,
       ar_marked_by = None \<rparr>"

definition set_attendance_row :: "string \<Rightarrow> attendanceData \<Rightarrow> AttendanceRecord \<Rightarrow> AttendanceRecord" where
  "set_attendance_row db_now d r =
     r \<lparr> ar_committee_member_id := ad_committee_member_id d,
         ar_attendance_date := ad_attendance_date d,
         ar_status := ad_status d,
         ar_photo_url := ad_photo_url d,
         ar_latitude := map_option (numeric_round 8) (ad_latitude d),
         ar_longitude := map_option (numeric_round 8) (ad_longitude d),
         ar_accuracy := map_option (numeric_round 2) (ad_accuracy d),
         ar_address := ad_address d,
         ar_check_in_time := ad_check_in_time d,
         ar_updated_at := db_now \<rparr>"

text \<open>
  \<open>from("attendance").insert(d).select().single()\<close>: the row gets the next serial id, the
  columns of \<open>d\<close>, and the column defaults elsewhere (\<open>marked_by\<close> is \<open>NULL\<close>). The insert
  is refused when the request fails (\<open>fails\<close>), when a number does not fit its column,
  when \<open>committee_member_id\<close> references no committee member, or when a row with the same
  \<open>(committee_member_id, attendance_date)\<close> exists (the table's \<open>UNIQUE\<close> constraint).
\<close>

definition insert_attendance ::
  "bool \<Rightarrow> string \<Rightarrow> attendanceData \<Rightarrow> database \<Rightarrow> error + (AttendanceRecord \<times> database)" where
  "insert_attendance fails db_now d db =
     (if fails then Inl StorageUnavailable
      else if \<not> columns_fit d then Inl NumericFieldOverflow
      else if ad_committee_member_id d \<notin> set (map cm_id (committee_members db))
        then Inl ForeignKeyViolation
      else if (ad_committee_member_id d, ad_attendance_date d) \<in> set (map attendance_key (attendance db))
        then Inl ConstraintViolation
      else let r = new_attendance_row (Suc (attendance_seq db)) db_now d
           in Inr (r, db \<lparr> attendance := attendance db @ [r],
                            attendance_seq := Suc (attendance_seq db) \<rparr>))"

text \<open>
  \<open>from("attendance").update(d).eq("id", i)\<close>: every row with that id takes the columns of
  \<open>d\<close>, and the trigger sets \<open>updated_at\<close>. The same constraints are checked on the result.
\<close>

definition update_attendance ::
  "bool \<Rightarrow> string \<Rightarrow> attendanceData \<Rightarrow> nat \<Rightarrow> database \<Rightarrow> error + database" where
  "update_attendance fails db_now d i db =
     (let rows = map (\<lambda>r. if ar_id r = i then set_attendance_row db_now d r else r) (attendance db)
      in if fails then Inl StorageUnavailable
         else if \<not> columns_fit d then Inl NumericFieldOverflow
         else if i \<in> set (map ar_id (attendance db))
               \<and> ad_committee_member_id d \<notin> set (map cm_id (committee_members db))
           then Inl ForeignKeyViolation
         else if \<not> distinct (map attendance_key rows) then Inl ConstraintViolation
         else Inr (db \<lparr> attendance := rows \<rparr>))"

subsection \<open>Photo storage (\<open>lib/storage.ts\<close>)\<close>

definition isBase64Image :: "string \<Rightarrow> bool" where
  "isBase64Image str = startsWith str ''data:image/''"

text \<open>
  \<open>uploadAttendancePhoto\<close>: the object is stored under \<open>date/memberId_timestamp.jpg\<close>
  (replacing an object of that name) and its public URL is returned; when decoding or the
  upload fails the result is \<open>null\<close> and nothing is stored. \<open>upload_ok\<close> is the outcome of
  decoding and upload, \<open>ts\<close> is \<open>Date.now()\<close>, \<open>base\<close> the bucket's public URL prefix.
\<close>

definition uploadAttendancePhoto ::
  "bool \<Rightarrow> nat \<Rightarrow> string \<Rightarrow> string \<Rightarrow> string \<Rightarrow> string \<Rightarrow> database \<Rightarrow> string option \<times> database" where
  "uploadAttendancePhoto upload_ok ts base base64Photo memberId attendanceDate db =
     (let fileName = attendanceDate @ ''/'' @ memberId @ ''_'' @ toString ts @ ''.jpg''
      in if upload_ok
         then (Some (base @ fileName), db \<lparr> photos := List.insert fileName (photos db) \<rparr>)
         else (None, db))"

subsection \<open>The per-date read path\<close>

text \<open>
  \<open>attendanceMap\<close>: the records of the date keyed by committee member, a later record
  replacing an earlier one with the same key.
\<close>

definition attendanceMap :: "AttendanceRecord list \<Rightarrow> (nat \<rightharpoonup> AttendanceRecord)" where
  "attendanceMap records = fold (\<lambda>record m. m(ar_committee_member_id record \<mapsto> record)) records Map.empty"

definition combine_member :: "(nat \<rightharpoonup> AttendanceRecord) \<Rightarrow> string \<Rightarrow> CommitteeMember \<Rightarrow> MemberAttendance" where
  "combine_member amap targetDate member =
     (let attendance = amap (cm_id member)
      in \<lparr> member_id = cm_id member,
           name = cm_name member,
           department = cm_department member,
           attendance_id = or_null truthy_id (map_option ar_id attendance),
           attendance_date = targetDate,
           status = (case attendance of Some a \<Rightarrow> ar_status a | None \<Rightarrow> Absent),
           photo_url = or_null truthy_str (Option.bind attendance ar_photo_url),
           ma_latitude = or_null truthy_num (Option.bind attendance ar_latitude),
           ma_longitude = or_null truthy_num (Option.bind attendance ar_longitude),
           ma_accuracy = or_null truthy_num (Option.bind attendance ar_accuracy),
           ma_address = or_null truthy_str (Option.bind attendance ar_address),
           check_in_time = or_null truthy_str (Option.bind attendance ar_check_in_time) \<rparr>)"

text \<open>The two queries of \<open>fetchMembers\<close> and the list it builds from them.\<close>

definition select_committee_members :: "database \<Rightarrow> CommitteeMember list" where
  "select_committee_members db = sort_key cm_id (committee_members db)"

definition select_attendance :: "database \<Rightarrow> string \<Rightarrow> AttendanceRecord list" where
  "select_attendance db targetDate = filter (\<lambda>r. ar_attendance_date r = targetDate) (attendance db)"

definition combined :: "database \<Rightarrow> string \<Rightarrow> MemberAttendance list" where
  "combined db targetDate =
     map (combine_member (attendanceMap (select_attendance db targetDate)) targetDate)
         (select_committee_members db)"

text \<open>
  \<open>fetchMembers(date, showLoading)\<close>. \<open>membersError\<close> and \<open>attendanceError\<close> say whether the
  two queries fail; a failure leaves \<open>members\<close> as it was.
\<close>

definition fetchMembers ::
  "bool \<Rightarrow> bool \<Rightarrow> database \<Rightarrow> string option \<Rightarrow> bool \<Rightarrow> attendance_state \<Rightarrow> attendance_state" where
  "fetchMembers membersError attendanceError db date showLoading st =
     (let targetDate = (case or_null truthy_str date of Some d \<Rightarrow> d | None \<Rightarrow> selectedDate st);
          st1 = (if showLoading then st \<lparr> isLoading := True, att_error := None \<rparr> else st);
          st2 = (if membersError \<or> attendanceError
                 then (if showLoading then st1 \<lparr> att_error := Some ''Failed to load members'' \<rparr> else st1)
                 else st1 \<lparr> members := combined db targetDate \<rparr>)
      in if showLoading then st2 \<lparr> isLoading := False \<rparr> else st2)"


subsection \<open>Marking attendance\<close>

text \<open>
  What \<open>markAttendance\<close> takes from outside the program: the outcome of the photo upload,
  the outcome of the write request, and the clocks it reads (\<open>new Date().toISOString()\<close>
  once for the row and once for the local roster, \<open>NOW()\<close> in the store).
\<close>

record mark_env =
  upload_ok :: bool
  upload_ts :: nat
  bucket_url :: string
  write_fails :: bool
  payload_now :: string
  local_now :: string
  db_now :: string

definition final_photo ::
  "mark_env \<Rightarrow> database \<Rightarrow> string \<Rightarrow> nat \<Rightarrow> string option \<Rightarrow> string option \<times> database" where
  "final_photo env db date memberId photoUrl =
     (case or_null truthy_str photoUrl of
        None \<Rightarrow> (None, db)
      | Some p \<Rightarrow>
          if isBase64Image p
          then uploadAttendancePhoto (upload_ok env) (upload_ts env) (bucket_url env) p
                 (toString memberId) date db
          else (Some p, db))"

definition make_attendanceData ::
  "string \<Rightarrow> nat \<Rightarrow> string \<Rightarrow> AttendanceStatus \<Rightarrow> string option \<Rightarrow> LocationData option \<Rightarrow> attendanceData" where
  "make_attendanceData now memberId date st finalPhotoUrl location =
     \<lparr> ad_committee_member_id = memberId,
       ad_attendance_date = date,
       ad_status = st,
       ad_photo_url = finalPhotoUrl,
       ad_latitude = or_null truthy_num (map_option latitude location),
       ad_longitude = or_null truthy_num (map_option longitude location),
       ad_accuracy = or_null truthy_num (map_option accuracy location),
       ad_address = or_null truthy_str (Option.bind location address),
       ad_check_in_time = (if st = Attend then Some now else None) \<rparr>"

text \<open>The object both branches write into the member's entry of the local roster.\<close>

definition mark_local ::
  "string \<Rightarrow> AttendanceStatus \<Rightarrow> string option \<Rightarrow> LocationData option \<Rightarrow> MemberAttendance \<Rightarrow> MemberAttendance" where
  "mark_local now st finalPhotoUrl location m =
     m \<lparr> status := st,
         photo_url := finalPhotoUrl,
         ma_latitude := or_null truthy_num (map_option latitude location),
         ma_longitude := or_null truthy_num (map_option longitude location),
         ma_accuracy := or_null truthy_num (map_option accuracy location),
         ma_address := or_null truthy_str (Option.bind location address),
         check_in_time := (if st = Attend then Some now else None) \<rparr>"

text \<open>
  \<open>markAttendance(memberId, status, photoUrl, location)\<close>. The result is the error the
  promise rejects with (\<open>None\<close> when it resolves), the provider's state and the store.
\<close>

definition markAttendance ::
  "mark_env \<Rightarrow> database \<Rightarrow> attendance_state \<Rightarrow> nat \<Rightarrow> AttendanceStatus \<Rightarrow> string option
     \<Rightarrow> LocationData option \<Rightarrow> error option \<times> attendance_state \<times> database" where
  "markAttendance env db st memberId stat photoUrl location =
     (case find (\<lambda>m. member_id m = memberId) (members st) of
        None \<Rightarrow> (Some MemberNotFound, st, db)
      | Some member \<Rightarrow>
          (let (finalPhotoUrl, db1) = final_photo env db (selectedDate st) memberId photoUrl;
               attendanceData = make_attendanceData (payload_now env) memberId (selectedDate st)
                                  stat finalPhotoUrl location
           in case or_null truthy_id (attendance_id member) of
                Some aid \<Rightarrow>
                  (case update_attendance (write_fails env) (db_now env) attendanceData aid db1 of
                     Inl updateError \<Rightarrow> (Some updateError, st, db1)
                   | Inr db2 \<Rightarrow>
                       (None,
                        st \<lparr> members :=
                               map (\<lambda>m. if member_id m = memberId
                                         then mark_local (local_now env) stat finalPhotoUrl location m
                                         else m) (members st) \<rparr>,
                        db2))
              | None \<Rightarrow>
                  (case insert_attendance (write_fails env) (db_now env) attendanceData db1 of
                     Inl insertError \<Rightarrow> (Some insertError, st, db1)
                   | Inr (newRecord, db2) \<Rightarrow>
                       (None,
                        st \<lparr> members :=
                               map (\<lambda>m. if member_id m = memberId
                                         then (mark_local (local_now env) stat finalPhotoUrl location m)
                                                \<lparr> attendance_id := Some (ar_id newRecord) \<rparr>
                                         else m) (members st) \<rparr>,
                        db2))))"

text \<open>
  \<open>confirmAttendance\<close> of the attendance page: it calls \<open>markAttendance\<close> with a fifth
  argument, the id of the logged-in user; \<open>markAttendance\<close> declares four parameters, so
  the fifth is dropped. A rejection is caught and reported by an alert.
\<close>

definition confirmAttendance ::
  "mark_env \<Rightarrow> database \<Rightarrow> attendance_state \<Rightarrow> nat option \<Rightarrow> MemberAttendance option
     \<Rightarrow> string option \<Rightarrow> LocationData option \<Rightarrow> attendance_state \<times> database" where
  "confirmAttendance env db st uid selectedMember capturedPhoto currentLocation =
     (case selectedMember of
        None \<Rightarrow> (st, db)
      | Some sm \<Rightarrow>
          snd (markAttendance env db st (member_id sm) Attend
                 (or_null truthy_str capturedPhoto)
                 (map_option (\<lambda>l. \<lparr> latitude = latitude l, longitude = longitude l,
                                     accuracy = accuracy l, address = address l,
                                     timestamp = None \<rparr>) currentLocation)))"

subsection \<open>Statistics\<close>

record stats =
  total :: nat
  attend :: nat
  absent :: nat

definition attendance_stats :: "attendance_state \<Rightarrow> stats" where
  "attendance_stats st =
     \<lparr> total = length (members st),
       attend = length (filter (\<lambda>m. status m = Attend) (members st)),
       absent = length (filter (\<lambda>m. status m = Absent) (members st)) \<rparr>"

text \<open>
  JavaScript numbers are IEEE 754 doubles. The non-negative finite ones are written here
  as fractions \<open>(n, d)\<close>, and \<open>to_double n d\<close> is the double nearest to \<open>n / d\<close>: a
  53-bit significand, ties to the even significand, exponent not below that of the
  subnormal numbers. \<open>/\<close> and \<open>*\<close> round their exact result this way; \<open>Math.round\<close> is
  \<open>floor (x + 1/2)\<close> without rounding error.
\<close>

fun bitlen :: "nat \<Rightarrow> nat" where
  "bitlen n = (if n = 0 then 0 else Suc (bitlen (n div 2)))"

definition ilog2 :: "nat \<Rightarrow> nat \<Rightarrow> int" where
  "ilog2 n d =
     (let k = int (bitlen n) - int (bitlen d)
      in if (if 0 \<le> k then d * 2 ^ nat k \<le> n else d \<le> n * 2 ^ nat (- k)) then k else k - 1)"

definition round_half_even :: "nat \<Rightarrow> nat \<Rightarrow> nat" where
  "round_half_even n d =
     (let q = n div d; r = n mod d
      in if 2 * r < d then q else if d < 2 * r then Suc q else if even q then q else Suc q)"

definition to_double :: "nat \<Rightarrow> nat \<Rightarrow> nat \<times> nat" where
  "to_double n d =
     (if n = 0 then (0, 1)
      else let e = max (ilog2 n d - 52) (- 1074)
           in if 0 \<le> e
              then (round_half_even n (d * 2 ^ nat e) * 2 ^ nat e, 1)
              else (round_half_even (n * 2 ^ nat (- e)) d, 2 ^ nat (- e)))"

definition number :: "nat \<Rightarrow> nat \<times> nat" where
  "number n = to_double n 1"

definition number_div :: "nat \<times> nat \<Rightarrow> nat \<times> nat \<Rightarrow> nat \<times> nat" where
  "number_div x y = to_double (fst x * snd y) (snd x * fst y)"

definition number_mul :: "nat \<times> nat \<Rightarrow> nat \<times> nat \<Rightarrow> nat \<times> nat" where
  "number_mul x y = to_double (fst x * fst y) (snd x * snd y)"

definition Math_round :: "nat \<times> nat \<Rightarrow> nat" where
  "Math_round x = (2 * fst x + snd x) div (2 * snd x)"

text \<open>\<open>attendanceRate\<close> of the report page.\<close>

definition attendanceRate :: "stats \<Rightarrow> nat" where
  "attendanceRate s =
     (if total s > 0
      then Math_round (number_mul (number_div (number (attend s)) (number (total s))) (number 100))
      else 0)"

section \<open>Team allocator (\<open>dashboard/teams/page.tsx\<close>)\<close>

definition MAX_MEMBERS_PER_TEAM :: nat where
  "MAX_MEMBERS_PER_TEAM = 5"

definition DEFAULT_TEAMS :: nat where
  "DEFAULT_TEAMS = 8"

record Participant =
  participant_id :: nat
  participant_name :: string
  registeredAt :: string

record Team =
  team_id :: nat
  team_name :: string
  team_members :: "Participant list"

text \<open>The state of \<open>TeamsPage\<close> that registration reads and writes.\<close>

record teams_state =
  teams :: "Team list"
  totalParticipants :: int
  newParticipantName :: string
  isAddingParticipant :: bool
  assignmentResult :: "(string \<times> string) option"
  teams_error :: "string option"

text \<open>
  \<open>from("groups").insert({ name }).select().single()\<close>. The name column is
  \<open>VARCHAR(50) NOT NULL\<close>.
\<close>

definition insert_group :: "bool \<Rightarrow> string \<Rightarrow> string \<Rightarrow> database \<Rightarrow> error + (Group \<times> database)" where
  "insert_group fails now nm db =
     (if fails then Inl StorageUnavailable
      else if 50 < length nm then Inl ValueTooLong
      else let g = \<lparr> g_id = Suc (groups_seq db), g_name = nm, g_created_at = now \<rparr>
           in Inr (g, db \<lparr> groups := groups db @ [g], groups_seq := Suc (groups_seq db) \<rparr>))"

text \<open>
  \<open>from("participants").insert({ name, group_id, registered_by }).select().single()\<close>.
  The name column is \<open>VARCHAR(100) NOT NULL\<close>; \<open>group_id\<close> references \<open>groups\<close> and
  \<open>registered_by\<close> references \<open>users\<close>; the timestamps default to \<open>NOW()\<close>.
\<close>

definition insert_participant ::
  "bool \<Rightarrow> string \<Rightarrow> string \<Rightarrow> nat option \<Rightarrow> nat option \<Rightarrow> database \<Rightarrow> error + (ParticipantRow \<times> database)" where
  "insert_participant fails now nm gid by db =
     (if fails then Inl StorageUnavailable
      else if 100 < length nm then Inl ValueTooLong
      else if (case gid of None \<Rightarrow> False | Some g \<Rightarrow> g \<notin> set (map g_id (groups db)))
        then Inl ForeignKeyViolation
      else if (case by of None \<Rightarrow> False | Some u \<Rightarrow> u \<notin> set (map u_id (users db)))
        then Inl ForeignKeyViolation
      else let p = \<lparr> p_id = Suc (participants_seq db), p_name = nm, p_group_id = gid,
                       p_registered_at = now, p_created_at = now, p_registered_by = by \<rparr>
           in Inr (p, db \<lparr> participants := participants db @ [p],
                            participants_seq := Suc (participants_seq db) \<rparr>))"

text \<open>
  What \<open>handleAddParticipant\<close> takes from outside the program: the outcomes of its two
  insert requests, the value of \<open>Math.floor(Math.random() * availableTeams.length)\<close>, and
  the store's clock.
\<close>

record add_env =
  group_insert_fails :: bool
  participant_insert_fails :: bool
  random_index :: nat
  add_db_now :: string

text \<open>The teams below capacity, as \<open>handleAddParticipant\<close> filters them.\<close>

definition availableTeams :: "teams_state \<Rightarrow> Team list" where
  "availableTeams st = filter (\<lambda>team. length (team_members team) < MAX_MEMBERS_PER_TEAM) (teams st)"

text \<open>
  The first half of \<open>handleAddParticipant\<close>: the team the participant goes to. With no
  team below capacity a group is inserted and appended to the local teams; otherwise a
  team is drawn from \<open>availableTeams\<close> (an index outside the array reads \<open>undefined\<close>,
  and taking its \<open>id\<close> throws).
\<close>

definition assign_team ::
  "add_env \<Rightarrow> database \<Rightarrow> teams_state \<Rightarrow> error + (nat \<times> string \<times> teams_state \<times> database)" where
  "assign_team env db st =
     (let availableTeams = availableTeams st
      in if length availableTeams = 0
         then (let newTeamName = ''Team '' @ toString (length (teams st) + 1)
               in case insert_group (group_insert_fails env) (add_db_now env) newTeamName db of
                    Inl groupError \<Rightarrow> Inl groupError
                  | Inr (newGroupData, db1) \<Rightarrow>
                      (let newTeam = \<lparr> team_id = g_id newGroupData, team_name = g_name newGroupData,
                                       team_members = [] \<rparr>
                       in Inr (g_id newGroupData, g_name newGroupData,
                               st \<lparr> teams := teams st @ [newTeam] \<rparr>, db1)))
         else if random_index env < length availableTeams
              then (let randomTeam = availableTeams ! random_index env
                    in Inr (team_id randomTeam, team_name randomTeam, st, db))
              else Inl TypeError)"

text \<open>
  \<open>handleAddParticipant\<close>. The result is the error its \<open>catch\<close> block handles (\<open>None\<close>
  when nothing is thrown), the page's state and the store. \<open>usr\<close> is the logged-in user.
\<close>

definition handleAddParticipant ::
  "add_env \<Rightarrow> User option \<Rightarrow> database \<Rightarrow> teams_state \<Rightarrow> error option \<times> teams_state \<times> database" where
  "handleAddParticipant env usr db st =
     (let nm = trim (newParticipantName st)
      in if nm = [] \<or> isAddingParticipant st then (None, st, db)
         else
           case assign_team env db st of
             Inl err \<Rightarrow>
               (Some err,
                st \<lparr> teams_error := Some ''Failed to add participant'', isAddingParticipant := False \<rparr>,
                db)
           | Inr (assignedTeamId, assignedTeamName, st1, db1) \<Rightarrow>
               (case insert_participant (participant_insert_fails env) (add_db_now env) nm
                       (Some assignedTeamId) (or_null truthy_id (map_option user_id usr)) db1 of
                  Inl participantError \<Rightarrow>
                    (Some participantError,
                     st1 \<lparr> teams_error := Some ''Failed to add participant'',
                           isAddingParticipant := False \<rparr>,
                     db1)
                | Inr (participantData, db2) \<Rightarrow>
                    (let newParticipant =
                           \<lparr> participant_id = p_id participantData,
                             participant_name = p_name participantData,
                             registeredAt = split_first CHR ''T'' (p_registered_at participantData) \<rparr>
                     in (None,
                         st1 \<lparr> teams := map (\<lambda>team. if team_id team = assignedTeamId
                                                     then team \<lparr> team_members := team_members team @ [newParticipant] \<rparr>
                                                     else team) (teams st1),
                               totalParticipants := totalParticipants st1 + 1,
                               newParticipantName := [],
                               assignmentResult := Some (nm, assignedTeamName),
                               isAddingParticipant := False \<rparr>,
                         db2))))"

section \<open>Identity and session manager (\<open>AuthContext\<close>)\<close>



text \<open>\<open>.single()\<close>: the row when the query has exactly one, an error otherwise.\<close>

definition single :: "'a list \<Rightarrow> error + 'a" where
  "single rows = (case rows of [r] \<Rightarrow> Inr r | _ \<Rightarrow> Inl NoSingleRow)"





definition store_ok :: "database \<Rightarrow> bool" where
  "store_ok db \<longleftrightarrow>
     distinct (map cm_id (committee_members db)) \<and>
     distinct (map ar_id (attendance db)) \<and>
     distinct (map attendance_key (attendance db)) \<and>
     (\<forall>r \<in> set (attendance db). 0 < ar_id r \<and> ar_id r \<le> attendance_seq db)"

definition roster_view :: "MemberAttendance \<Rightarrow> nat \<times> nat option" where
  "roster_view m = (member_id m, attendance_id m)"

definition roster_synced :: "attendance_state \<Rightarrow> database \<Rightarrow> bool" where
  "roster_synced st db \<longleftrightarrow>
     map roster_view (members st) = map roster_view (combined db (selectedDate st))"

definition add_to_team :: "nat \<Rightarrow> Participant \<Rightarrow> Team list \<Rightarrow> Team list" where
  "add_to_team tid p ts =
     map (\<lambda>team. if team_id team = tid then team \<lparr> team_members := team_members team @ [p] \<rparr> else team) ts"

definition local_participant :: "ParticipantRow \<Rightarrow> Participant" where
  "local_participant p =
     \<lparr> participant_id = p_id p, participant_name = p_name p,
       registeredAt = split_first CHR ''T'' (p_registered_at p) \<rparr>"

definition ex_user :: UserRow where
  "ex_user = \<lparr> u_id = 7, u_username = ''aina'', u_password = ''$2a$10$hash'', u_name = ''Aina'',
                u_department = executive, u_role = protocol, u_status = active,
                u_session_token = Some ''m2r1bz7k-4fzzzxjylrx-1pbkprl3f9q'',
                u_session_updated_at = Some ''2025-01-01T08:00:00.000Z'' \<rparr>"

definition ex_member :: CommitteeMember where
  "ex_member = \<lparr> cm_id = 12, cm_name = ''Ehara Tomoka'', cm_department = protocol_ceremonial,
                  cm_created_at = ''2025-01-01T00:00:00Z'' \<rparr>"

definition ex_participant :: "nat \<Rightarrow> ParticipantRow" where
  "ex_participant i = \<lparr> p_id = i, p_name = ''P'' @ toString i, p_group_id = Some 1,
                        p_registered_at = ''2025-01-01T09:00:00Z'', p_created_at = ''2025-01-01T09:00:00Z'',
                        p_registered_by = Some 7 \<rparr>"

definition ex_db :: database where
  "ex_db = \<lparr> users = [ex_user], committee_members = [ex_member],
             attendance = [], attendance_seq = 40,
             groups = [\<lparr> g_id = 1, g_name = ''Team 1'', g_created_at = ''2025-01-01T00:00:00Z'' \<rparr>],
             groups_seq = 1,
             participants = map ex_participant [1, 2, 3, 4, 5], participants_seq = 5,
             photos = [] \<rparr>"

definition ex_roster :: attendance_state where
  "ex_roster = \<lparr> members = combined ex_db ''2025-01-02'', selectedDate = ''2025-01-02'',
                  isLoading = False, att_error = None \<rparr>"

definition ex_teams :: teams_state where
  "ex_teams = \<lparr> teams = [\<lparr> team_id = 1, team_name = ''Team 1'',
                            team_members = map local_participant (participants ex_db) \<rparr>],
                 totalParticipants = 5, newParticipantName = ''Sofea'',
                 isAddingParticipant = False, assignmentResult = None, teams_error = None \<rparr>"

definition ex_mark_env :: mark_env where
  "ex_mark_env = \<lparr> upload_ok = True, upload_ts = 1735779600000,
                    bucket_url = ''https://x.supabase.co/storage/v1/object/public/attendance-photos/'',
                    write_fails = False, payload_now = ''2025-01-02T01:00:00.000Z'',
                    local_now = ''2025-01-02T01:00:00.001Z'', db_now = ''2025-01-02T01:00:00.100Z'' \<rparr>"

definition ex_add_env :: add_env where
  "ex_add_env = \<lparr> group_insert_fails = False, participant_insert_fails = False,
                   random_index = 0, add_db_now = ''2025-01-02T02:00:00Z'' \<rparr>"

definition records_for :: "database \<Rightarrow> nat \<Rightarrow> string \<Rightarrow> AttendanceRecord list" where
  "records_for db m d = filter (\<lambda>r. attendance_key r = (m, d)) (attendance db)"

definition records_beside :: "database \<Rightarrow> nat \<Rightarrow> string \<Rightarrow> AttendanceRecord list" where
  "records_beside db m d = filter (\<lambda>r. attendance_key r \<noteq> (m, d)) (attendance db)"

definition ex_record :: AttendanceRecord where
  "ex_record = \<lparr> ar_id = 41, ar_committee_member_id = 12, ar_attendance_date = ''2025-01-02'',
                  ar_status = Attend,
                  ar_photo_url = Some ''https://x.supabase.co/storage/v1/object/public/attendance-photos/2025-01-02/12_1735777800000.jpg'',
                  ar_latitude = Some (3139 / 1000), ar_longitude = Some (1016869 / 10000),
                  ar_accuracy = Some 15, ar_address = Some ''Kuala Lumpur'',
                  ar_check_in_time = Some ''2025-01-02T00:30:00.000Z'',
                  ar_created_at = ''2025-01-02T00:30:00.100Z'', ar_updated_at = ''2025-01-02T00:30:00.100Z'',
                  ar_marked_by = None \<rparr>"

definition ex_db_marked :: database where
  "ex_db_marked = ex_db \<lparr> attendance := [ex_record], attendance_seq := 41 \<rparr>"


definition ex_entry :: "nat option \<Rightarrow> AttendanceStatus \<Rightarrow> string option \<Rightarrow> MemberAttendance" where
  "ex_entry aid stat t =
     \<lparr> member_id = 12, name = ''Ehara Tomoka'', department = protocol_ceremonial,
       attendance_id = aid, attendance_date = ''2025-01-02'', status = stat,
       photo_url = None, ma_latitude = None, ma_longitude = None, ma_accuracy = None,
       ma_address = None, check_in_time = t \<rparr>"

definition ex_row :: "AttendanceStatus \<Rightarrow> string option \<Rightarrow> AttendanceRecord" where
  "ex_row stat t =
     \<lparr> ar_id = 41, ar_committee_member_id = 12, ar_attendance_date = ''2025-01-02'',
       ar_status = stat, ar_photo_url = None, ar_latitude = None, ar_longitude = None,
       ar_accuracy = None, ar_address = None, ar_check_in_time = t,
       ar_created_at = ''2025-01-02T01:00:00.100Z'', ar_updated_at = ''2025-01-02T01:00:00.100Z'',
       ar_marked_by = None \<rparr>"

definition ex_roster_with :: "MemberAttendance \<Rightarrow> attendance_state" where
  "ex_roster_with m = \<lparr> members = [m], selectedDate = ''2025-01-02'', isLoading = False, att_error = None \<rparr>"

definition ex_db_with :: "AttendanceRecord \<Rightarrow> database" where
  "ex_db_with r = ex_db \<lparr> attendance := [r], attendance_seq := 41 \<rparr>"


definition ex_db_equator :: database where
  "ex_db_equator = ex_db \<lparr> attendance := [ex_record \<lparr> ar_latitude := Some 0 \<rparr>], attendance_seq := 41 \<rparr>"

definition ex_members :: "nat \<Rightarrow> CommitteeMember list" where
  "ex_members n = map (\<lambda>i. \<lparr> cm_id = i, cm_name = ''Member '' @ toString i,
                              cm_department = executive, cm_created_at = ''2025-01-01T00:00:00Z'' \<rparr>)
                    [1..<Suc n]"

definition ex_attended :: "nat \<Rightarrow> AttendanceRecord list" where
  "ex_attended k = map (\<lambda>i. ex_record \<lparr> ar_id := i, ar_committee_member_id := i \<rparr>) [1..<Suc k]"

definition ex_db_day :: "nat \<Rightarrow> nat \<Rightarrow> database" where
  "ex_db_day n k = ex_db \<lparr> committee_members := ex_members n, attendance := ex_attended k,
                           attendance_seq := k \<rparr>"

definition marked_attend :: "database \<Rightarrow> string \<Rightarrow> CommitteeMember \<Rightarrow> bool" where
  "marked_attend db d cm \<longleftrightarrow>
     (\<exists>r \<in> set (attendance db). attendance_key r = (cm_id cm, d) \<and> ar_status r = Attend)"

fun register_all ::
  "(add_env \<times> string) list \<Rightarrow> User option \<Rightarrow> teams_state \<Rightarrow> database
     \<Rightarrow> error option list \<times> teams_state \<times> database" where
  "register_all [] usr st db = ([], st, db)"
| "register_all ((env, nm) # xs) usr st db =
     (case handleAddParticipant env usr db (st \<lparr> newParticipantName := nm \<rparr>) of
        (res, st1, db1) \<Rightarrow>
          (case register_all xs usr st1 db1 of
             (rs, st2, db2) \<Rightarrow> (res # rs, st2, db2)))"

definition total_members :: "Team list \<Rightarrow> nat" where
  "total_members ts = sum_list (map (\<lambda>t. length (team_members t)) ts)"

definition teams_ok :: "nat \<Rightarrow> teams_state \<Rightarrow> bool" where
  "teams_ok k st \<longleftrightarrow>
     distinct (map team_id (teams st)) \<and>
     list_all (\<lambda>t. length (team_members t) \<le> MAX_MEMBERS_PER_TEAM) (teams st) \<and>
     total_members (teams st) = k \<and>
     \<not> isAddingParticipant st"

definition ex_teams_default :: teams_state where
  "ex_teams_default =
     \<lparr> teams = map (\<lambda>i. \<lparr> team_id = i, team_name = ''Team '' @ toString i, team_members = [] \<rparr>) [1..<9],
       totalParticipants = 0, newParticipantName = [], isAddingParticipant = False,
       assignmentResult = None, teams_error = None \<rparr>"

definition ex_db_default :: database where
  "ex_db_default =
     ex_db \<lparr> groups := map (\<lambda>i. \<lparr> g_id = i, g_name = ''Team '' @ toString i,
                                  g_created_at = ''2025-01-01T00:00:00Z'' \<rparr>) [1..<9],
             groups_seq := 8, participants := [], participants_seq := 0 \<rparr>"

definition ex_registrations :: "(add_env \<times> string) list" where
  "ex_registrations = replicate 40 (ex_add_env, ''Sofea'')"

definition ex_run_result :: "error option list \<times> teams_state \<times> database" where
  "ex_run_result = register_all ex_registrations None ex_teams_default ex_db_default"

definition ex_state_40 :: teams_state where
  "ex_state_40 = fst (snd ex_run_result)"

definition ex_db_40 :: database where
  "ex_db_40 = snd (snd ex_run_result)"

definition ex_result_41 :: "error option \<times> teams_state \<times> database" where
  "ex_result_41 = handleAddParticipant ex_add_env None ex_db_40 (ex_state_40 \<lparr> newParticipantName := ''Sofea'' \<rparr>)"








section \<open>Properties\<close>

lemma or_null_simps [simp]:
  "or_null t None = None"
  "or_null t (Some x) = (if t x then Some x else None)"
  by (simp_all add: or_null_def)

lemma numeric_fits_None [simp]: "numeric_fits p s None"
  by (simp add: numeric_fits_def)

lemma columns_fit_no_numbers [simp]:
  "columns_fit \<lparr> ad_committee_member_id = m, ad_attendance_date = d, ad_status = st,
                 ad_photo_url = ph, ad_latitude = None, ad_longitude = None, ad_accuracy = None,
                 ad_address = a, ad_check_in_time = t \<rparr>"
  by (simp add: columns_fit_def)

lemma columns_fit_no_location [simp]:
  "columns_fit (make_attendanceData now m d st ph None)"
  by (simp add: make_attendanceData_def)






lemma distinct_fst_on_snd:
  "distinct (map (\<lambda>x. (f x, g x)) xs) \<Longrightarrow> distinct (map f (filter (\<lambda>r. g r = d) xs))"
proof (induction xs)
  case Nil then show ?case by simp
next
  case (Cons x xs)
  then have "(f x, g x) \<notin> (\<lambda>x. (f x, g x)) ` set xs" by simp
  then have "g x = d \<Longrightarrow> f x \<notin> f ` {y \<in> set xs. g y = d}" by force
  with Cons show ?case by simp
qed

lemma attendanceMap_Nil [simp]: "attendanceMap [] = Map.empty"
  by (simp add: attendanceMap_def)

lemma attendanceMap_snoc [simp]:
  "attendanceMap (xs @ [r]) = (attendanceMap xs)(ar_committee_member_id r \<mapsto> r)"
  by (simp add: attendanceMap_def)

lemma attendanceMap_None_iff:
  "attendanceMap xs m = None \<longleftrightarrow> m \<notin> ar_committee_member_id ` set xs"
  by (induction xs rule: rev_induct) auto

lemma attendanceMap_mem:
  "attendanceMap xs m = Some r \<Longrightarrow> r \<in> set xs \<and> ar_committee_member_id r = m"
  by (induction xs rule: rev_induct) (auto split: if_splits)

lemma attendanceMap_Some_iff:
  "distinct (map ar_committee_member_id xs) \<Longrightarrow>
   attendanceMap xs m = Some r \<longleftrightarrow> r \<in> set xs \<and> ar_committee_member_id r = m"
proof (induction xs rule: rev_induct)
  case Nil then show ?case by simp
next
  case (snoc x xs)
  then have nin: "ar_committee_member_id x \<notin> ar_committee_member_id ` set xs"
    and IH: "attendanceMap xs m = Some r \<longleftrightarrow> r \<in> set xs \<and> ar_committee_member_id r = m"
    by auto
  show ?case
  proof (cases "m = ar_committee_member_id x")
    case True
    with nin have "r \<in> set xs \<Longrightarrow> ar_committee_member_id r \<noteq> m" for r
      by (metis image_eqI)
    with True show ?thesis by auto
  next
    case False
    with IH show ?thesis by auto
  qed
qed

lemma attendance_key_alt: "attendance_key = (\<lambda>r. (ar_committee_member_id r, ar_attendance_date r))"
  by (simp add: attendance_key_def fun_eq_iff)

lemma select_attendance_distinct:
  "distinct (map attendance_key (attendance db)) \<Longrightarrow>
   distinct (map ar_committee_member_id (select_attendance db d))"
  unfolding select_attendance_def attendance_key_alt by (rule distinct_fst_on_snd)

text \<open>The record of a member on a date, as the read path finds it.\<close>

lemma record_lookup_Some:
  assumes "distinct (map attendance_key (attendance db))"
  shows "attendanceMap (select_attendance db d) m = Some r \<longleftrightarrow>
         r \<in> set (attendance db) \<and> attendance_key r = (m, d)"
  using attendanceMap_Some_iff [OF select_attendance_distinct [OF assms], of d m r]
  by (auto simp: select_attendance_def attendance_key_def)

lemma record_lookup_None:
  "attendanceMap (select_attendance db d) m = None \<longleftrightarrow>
   (m, d) \<notin> attendance_key ` set (attendance db)"
  by (auto simp: attendanceMap_None_iff select_attendance_def attendance_key_def image_iff)

lemma find_map_view:
  "map f xs = map f ys \<Longrightarrow> map_option f (find (\<lambda>x. Q (f x)) xs) = map_option f (find (\<lambda>y. Q (f y)) ys)"
proof (induction xs arbitrary: ys)
  case Nil then show ?case by simp
next
  case (Cons x xs)
  then obtain y ys' where "ys = y # ys'" "f x = f y" "map f xs = map f ys'" by (cases ys) auto
  with Cons.IH [of ys'] show ?case by simp
qed

lemma find_map_comp: "find P (map g xs) = map_option g (find (\<lambda>x. P (g x)) xs)"
  by (induction xs) auto

lemma member_id_combine [simp]: "member_id (combine_member amap d cm) = cm_id cm"
  by (simp add: combine_member_def Let_def)

lemma attendance_id_combine [simp]:
  "attendance_id (combine_member amap d cm) = or_null truthy_id (map_option ar_id (amap (cm_id cm)))"
  by (simp add: combine_member_def Let_def)

lemma find_Some_P: "find P xs = Some x \<Longrightarrow> P x \<and> x \<in> set xs"
  by (induction xs) (auto split: if_splits)

lemma synced_lookup:
  assumes syn: "roster_synced st db"
    and f: "find (\<lambda>m. member_id m = mid) (members st) = Some member"
  shows "attendance_id member =
         or_null truthy_id (map_option ar_id (attendanceMap (select_attendance db (selectedDate st)) mid))"
proof -
  let ?Q = "\<lambda>v. fst v = mid"
  have eq: "map_option roster_view (find (\<lambda>x. ?Q (roster_view x)) (members st)) =
        map_option roster_view (find (\<lambda>y. ?Q (roster_view y)) (combined db (selectedDate st)))"
    using syn unfolding roster_synced_def by (rule find_map_view)
  have l: "find (\<lambda>x. ?Q (roster_view x)) (members st) = Some member"
    using f by (simp add: roster_view_def)
  obtain e where e: "find (\<lambda>y. ?Q (roster_view y)) (combined db (selectedDate st)) = Some e"
      and v: "roster_view member = roster_view e"
    using eq l by (cases "find (\<lambda>y. ?Q (roster_view y)) (combined db (selectedDate st))") auto
  from e obtain cm where cm: "e = combine_member (attendanceMap (select_attendance db (selectedDate st))) (selectedDate st) cm"
      and "cm_id cm = mid"
    unfolding combined_def by (auto simp: find_map_comp roster_view_def dest: find_Some_P)
  then show ?thesis using v by (simp add: roster_view_def)
qed


subsection \<open>The writes of markAttendance\<close>

lemma final_photo_tables:
  "final_photo env db date mid photo = (fp, db1) \<Longrightarrow> db1 \<lparr> photos := photos db \<rparr> = db"
  by (auto simp: final_photo_def uploadAttendancePhoto_def Let_def split: option.splits if_splits)

lemma final_photo_fields:
  assumes "final_photo env db date mid photo = (fp, db1)"
  shows "attendance db1 = attendance db" "attendance_seq db1 = attendance_seq db"
    "committee_members db1 = committee_members db" "users db1 = users db"
    "groups db1 = groups db" "participants db1 = participants db"
    "groups_seq db1 = groups_seq db" "participants_seq db1 = participants_seq db"
  using assms
  by (auto simp: final_photo_def uploadAttendancePhoto_def Let_def split: option.splits if_splits)

lemma insert_attendance_Inr:
  assumes "insert_attendance fails now d db = Inr (r, db')"
  shows "r = new_attendance_row (Suc (attendance_seq db)) now d"
    and "db' = db \<lparr> attendance := attendance db @ [r], attendance_seq := Suc (attendance_seq db) \<rparr>"
    and "(ad_committee_member_id d, ad_attendance_date d) \<notin> set (map attendance_key (attendance db))"
    and "ad_committee_member_id d \<in> set (map cm_id (committee_members db))"
  using assms by (auto simp: insert_attendance_def Let_def split: if_splits)

lemma insert_attendance_Inl:
  "insert_attendance fails now d db = Inl e \<Longrightarrow> e \<noteq> MemberNotFound"
  by (auto simp: insert_attendance_def Let_def split: if_splits)

lemma update_attendance_Inr:
  assumes "update_attendance fails now d i db = Inr db'"
  shows "db' = db \<lparr> attendance := map (\<lambda>r. if ar_id r = i then set_attendance_row now d r else r) (attendance db) \<rparr>"
    and "distinct (map attendance_key (attendance db'))"
  using assms by (auto simp: update_attendance_def Let_def split: if_splits)

lemma key_new_row [simp]:
  "attendance_key (new_attendance_row i now d) = (ad_committee_member_id d, ad_attendance_date d)"
  by (simp add: attendance_key_def new_attendance_row_def)

lemma key_set_row [simp]:
  "attendance_key (set_attendance_row now d r) = (ad_committee_member_id d, ad_attendance_date d)"
  by (simp add: attendance_key_def set_attendance_row_def)

lemma id_new_row [simp]: "ar_id (new_attendance_row i now d) = i"
  by (simp add: new_attendance_row_def)

lemma id_set_row [simp]: "ar_id (set_attendance_row now d r) = ar_id r"
  by (simp add: set_attendance_row_def)

lemma data_key [simp]:
  "ad_committee_member_id (make_attendanceData now mid date stat fp loc) = mid"
  "ad_attendance_date (make_attendanceData now mid date stat fp loc) = date"
  by (simp_all add: make_attendanceData_def)

text \<open>The four ways a call of markAttendance ends.\<close>

lemma markAttendance_cases:
  assumes "markAttendance env db st mid stat photo loc = (res, st', db')"
  obtains
    (not_found) "find (\<lambda>m. member_id m = mid) (members st) = None"
      "res = Some MemberNotFound" "st' = st" "db' = db"
  | (failed) member fp e where
      "find (\<lambda>m. member_id m = mid) (members st) = Some member"
      "final_photo env db (selectedDate st) mid photo = (fp, db')"
      "res = Some e" "st' = st"
  | (inserted) member fp db1 r where
      "find (\<lambda>m. member_id m = mid) (members st) = Some member"
      "final_photo env db (selectedDate st) mid photo = (fp, db1)"
      "or_null truthy_id (attendance_id member) = None"
      "insert_attendance (write_fails env) (db_now env)
         (make_attendanceData (payload_now env) mid (selectedDate st) stat fp loc) db1 = Inr (r, db')"
      "res = None"
      "st' = st \<lparr> members := map (\<lambda>m. if member_id m = mid
                    then (mark_local (local_now env) stat fp loc m) \<lparr> attendance_id := Some (ar_id r) \<rparr>
                    else m) (members st) \<rparr>"
  | (updated) member fp db1 aid where
      "find (\<lambda>m. member_id m = mid) (members st) = Some member"
      "final_photo env db (selectedDate st) mid photo = (fp, db1)"
      "or_null truthy_id (attendance_id member) = Some aid"
      "update_attendance (write_fails env) (db_now env)
         (make_attendanceData (payload_now env) mid (selectedDate st) stat fp loc) aid db1 = Inr db'"
      "res = None"
      "st' = st \<lparr> members := map (\<lambda>m. if member_id m = mid
                    then mark_local (local_now env) stat fp loc m else m) (members st) \<rparr>"
proof (cases "find (\<lambda>m. member_id m = mid) (members st)")
  case None
  with assms have "res = Some MemberNotFound" "st' = st" "db' = db"
    by (simp_all add: markAttendance_def)
  with None show ?thesis by (rule not_found)
next
  case (Some member)
  note found = Some
  obtain fp db1 where fp: "final_photo env db (selectedDate st) mid photo = (fp, db1)"
    by (cases "final_photo env db (selectedDate st) mid photo")
  let ?d = "make_attendanceData (payload_now env) mid (selectedDate st) stat fp loc"
  show ?thesis
  proof (cases "or_null truthy_id (attendance_id member)")
    case None
    note branch = None
    show ?thesis
    proof (cases "insert_attendance (write_fails env) (db_now env) ?d db1")
      case (Inl e)
      with assms found fp branch have "res = Some e" "st' = st" "db' = db1"
        by (simp_all add: markAttendance_def)
      with found fp show ?thesis by (auto intro: failed)
    next
      case (Inr p)
      obtain r db2 where p: "p = (r, db2)" by (cases p)
      with assms found fp branch Inr have "res = None" "db' = db2"
        "st' = st \<lparr> members := map (\<lambda>m. if member_id m = mid
                    then (mark_local (local_now env) stat fp loc m) \<lparr> attendance_id := Some (ar_id r) \<rparr>
                    else m) (members st) \<rparr>"
        by (simp_all add: markAttendance_def)
      with found fp branch Inr p show ?thesis by (auto intro: inserted)
    qed
  next
    case (Some aid)
    note branch = Some
    show ?thesis
    proof (cases "update_attendance (write_fails env) (db_now env) ?d aid db1")
      case (Inl e)
      with assms found fp branch have "res = Some e" "st' = st" "db' = db1"
        by (simp_all add: markAttendance_def)
      with found fp show ?thesis by (auto intro: failed)
    next
      case (Inr db2)
      with assms found fp branch have "res = None" "db' = db2"
        "st' = st \<lparr> members := map (\<lambda>m. if member_id m = mid
                    then mark_local (local_now env) stat fp loc m else m) (members st) \<rparr>"
        by (simp_all add: markAttendance_def)
      with found fp branch Inr show ?thesis by (auto intro: updated)
    qed
  qed
qed


subsection \<open>The writes of handleAddParticipant\<close>
lemma insert_group_Inr:
  assumes "insert_group fails now nm db = Inr (g, db')"
  shows "g = \<lparr> g_id = Suc (groups_seq db), g_name = nm, g_created_at = now \<rparr>"
    and "db' = db \<lparr> groups := groups db @ [g], groups_seq := Suc (groups_seq db) \<rparr>"
  using assms by (auto simp: insert_group_def Let_def split: if_splits)

lemma insert_participant_Inr:
  assumes "insert_participant fails now nm gid by db = Inr (p, db')"
  shows "p = \<lparr> p_id = Suc (participants_seq db), p_name = nm, p_group_id = gid,
               p_registered_at = now, p_created_at = now, p_registered_by = by \<rparr>"
    and "db' = db \<lparr> participants := participants db @ [p],
                     participants_seq := Suc (participants_seq db) \<rparr>"
  using assms by (auto simp: insert_participant_def Let_def split: if_splits)

lemma assign_team_cases:
  assumes "assign_team env db st = r"
  obtains
    (group_failed) e where "availableTeams st = []"
      "insert_group (group_insert_fails env) (add_db_now env)
         (''Team '' @ toString (length (teams st) + 1)) db = Inl e"
      "r = Inl e"
  | (created) g db1 where "availableTeams st = []"
      "insert_group (group_insert_fails env) (add_db_now env)
         (''Team '' @ toString (length (teams st) + 1)) db = Inr (g, db1)"
      "r = Inr (g_id g, g_name g,
                st \<lparr> teams := teams st @ [\<lparr> team_id = g_id g, team_name = g_name g, team_members = [] \<rparr>] \<rparr>,
                db1)"
  | (drawn) "availableTeams st \<noteq> []" "random_index env < length (availableTeams st)"
      "r = Inr (team_id (availableTeams st ! random_index env),
                team_name (availableTeams st ! random_index env), st, db)"
  | (undefined_team) "availableTeams st \<noteq> []" "\<not> random_index env < length (availableTeams st)"
      "r = Inl TypeError"
proof (cases "availableTeams st = []")
  case True
  note empty = True
  let ?ins = "insert_group (group_insert_fails env) (add_db_now env)
         (''Team '' @ toString (length (teams st) + 1)) db"
  show ?thesis
  proof (cases ?ins)
    case (Inl e)
    with assms empty have "r = Inl e"
      by (simp add: assign_team_def availableTeams_def Let_def)
    with empty Inl show ?thesis by (rule group_failed)
  next
    case (Inr p)
    obtain g db1 where p: "p = (g, db1)" by (cases p)
    with assms empty Inr have "r = Inr (g_id g, g_name g,
                st \<lparr> teams := teams st @ [\<lparr> team_id = g_id g, team_name = g_name g, team_members = [] \<rparr>] \<rparr>,
                db1)"
      by (simp add: assign_team_def availableTeams_def Let_def)
    with empty Inr p show ?thesis by (auto intro: created)
  qed
next
  case False
  note nonempty = False
  show ?thesis
  proof (cases "random_index env < length (availableTeams st)")
    case True
    with assms nonempty have "r = Inr (team_id (availableTeams st ! random_index env),
                team_name (availableTeams st ! random_index env), st, db)"
      by (simp add: assign_team_def availableTeams_def Let_def)
    with nonempty True show ?thesis by (rule drawn)
  next
    case False
    with assms nonempty have "r = Inl TypeError"
      by (simp add: assign_team_def availableTeams_def Let_def)
    with nonempty False show ?thesis by (rule undefined_team)
  qed
qed

lemma handleAddParticipant_cases:
  assumes "handleAddParticipant env usr db st = (res, st', db')"
  obtains
    (ignored) "trim (newParticipantName st) = [] \<or> isAddingParticipant st"
      "res = None" "st' = st" "db' = db"
  | (assign_failed) e where
      "trim (newParticipantName st) \<noteq> []" "\<not> isAddingParticipant st"
      "assign_team env db st = Inl e" "res = Some e" "db' = db"
      "st' = st \<lparr> teams_error := Some ''Failed to add participant'', isAddingParticipant := False \<rparr>"
  | (insert_failed) tid tname st1 e where
      "trim (newParticipantName st) \<noteq> []" "\<not> isAddingParticipant st"
      "assign_team env db st = Inr (tid, tname, st1, db')"
      "insert_participant (participant_insert_fails env) (add_db_now env) (trim (newParticipantName st))
         (Some tid) (or_null truthy_id (map_option user_id usr)) db' = Inl e"
      "res = Some e"
      "st' = st1 \<lparr> teams_error := Some ''Failed to add participant'', isAddingParticipant := False \<rparr>"
  | (registered) tid tname st1 db1 p where
      "trim (newParticipantName st) \<noteq> []" "\<not> isAddingParticipant st"
      "assign_team env db st = Inr (tid, tname, st1, db1)"
      "insert_participant (participant_insert_fails env) (add_db_now env) (trim (newParticipantName st))
         (Some tid) (or_null truthy_id (map_option user_id usr)) db1 = Inr (p, db')"
      "res = None"
      "st' = st1 \<lparr> teams := add_to_team tid (local_participant p) (teams st1),
                    totalParticipants := totalParticipants st1 + 1,
                    newParticipantName := [],
                    assignmentResult := Some (trim (newParticipantName st), tname),
                    isAddingParticipant := False \<rparr>"
proof (cases "trim (newParticipantName st) = [] \<or> isAddingParticipant st")
  case True
  with assms have "res = None" "st' = st" "db' = db"
    by (auto simp: handleAddParticipant_def Let_def)
  with True show ?thesis by (rule ignored)
next
  case False
  then have g: "trim (newParticipantName st) \<noteq> []" "\<not> isAddingParticipant st" by auto
  show ?thesis
  proof (cases "assign_team env db st")
    case (Inl e)
    with assms g have "res = Some e" "db' = db"
      "st' = st \<lparr> teams_error := Some ''Failed to add participant'', isAddingParticipant := False \<rparr>"
      by (auto simp: handleAddParticipant_def Let_def)
    with g Inl show ?thesis by (auto intro: assign_failed)
  next
    case (Inr q)
    obtain tid tname st1 db1 where q: "q = (tid, tname, st1, db1)" by (cases q)
    let ?ins = "insert_participant (participant_insert_fails env) (add_db_now env)
         (trim (newParticipantName st)) (Some tid) (or_null truthy_id (map_option user_id usr)) db1"
    show ?thesis
    proof (cases ?ins)
      case (Inl e)
      with assms g Inr q have "res = Some e" "db' = db1"
        "st' = st1 \<lparr> teams_error := Some ''Failed to add participant'', isAddingParticipant := False \<rparr>"
        by (auto simp: handleAddParticipant_def Let_def)
      with g Inr q Inl show ?thesis by (auto intro: insert_failed)
    next
      case (Inr pr)
      obtain p db2 where pr: "pr = (p, db2)" by (cases pr)
      with assms g \<open>assign_team env db st = Inr q\<close> q Inr have "res = None" "db' = db2"
        "st' = st1 \<lparr> teams := add_to_team tid (local_participant p) (teams st1),
                    totalParticipants := totalParticipants st1 + 1,
                    newParticipantName := [],
                    assignmentResult := Some (trim (newParticipantName st), tname),
                    isAddingParticipant := False \<rparr>"
        by (auto simp: handleAddParticipant_def Let_def add_to_team_def local_participant_def)
      with g \<open>assign_team env db st = Inr q\<close> q Inr pr show ?thesis by (auto intro: registered)
    qed
  qed
qed

lemma assign_team_frame:
  assumes "assign_team env db st = Inr (tid, tname, st1, db1)"
  shows "participants db1 = participants db" "participants_seq db1 = participants_seq db"
    "users db1 = users db" "committee_members db1 = committee_members db"
    "attendance db1 = attendance db" "attendance_seq db1 = attendance_seq db"
    "photos db1 = photos db"
  using assms by (cases rule: assign_team_cases; auto dest!: insert_group_Inr(2))+

lemma assign_team_groups:
  assumes "assign_team env db st = Inr (tid, tname, st1, db1)"
  shows "db1 = db \<or>
         (availableTeams st = [] \<and>
          db1 = db \<lparr> groups := groups db @
                        [\<lparr> g_id = Suc (groups_seq db),
                           g_name = ''Team '' @ toString (length (teams st) + 1),
                           g_created_at = add_db_now env \<rparr>],
                      groups_seq := Suc (groups_seq db) \<rparr>)"
  using assms by (cases rule: assign_team_cases) (auto dest: insert_group_Inr)

text \<open>
  Claim C5. Registration never alters an existing participant: whatever
  \<open>handleAddParticipant\<close> is called with and however it ends, the participants table
  afterwards is the table before, row for row (so every existing row keeps its
  \<open>group_id\<close> and all its other fields), followed by at most the one new row.
\<close>

theorem handleAddParticipant_adds_one_row:
  "participants (snd (snd (handleAddParticipant env usr db st))) = participants db \<or>
   (\<exists>p. participants (snd (snd (handleAddParticipant env usr db st))) = participants db @ [p])"
proof -
  obtain res st' db' where r: "handleAddParticipant env usr db st = (res, st', db')"
    by (cases "handleAddParticipant env usr db st")
  have "participants db' = participants db \<or> (\<exists>p. participants db' = participants db @ [p])"
    using r
  proof (cases rule: handleAddParticipant_cases)
    case ignored then show ?thesis by simp
  next
    case (assign_failed e) then show ?thesis by simp
  next
    case (insert_failed tid tname st1 e)
    then show ?thesis using assign_team_frame(1) by blast
  next
    case (registered tid tname st1 db1 p)
    from registered(3) have "participants db1 = participants db" by (rule assign_team_frame)
    moreover from registered(4) have "participants db' = participants db1 @ [p]"
      by (auto dest: insert_participant_Inr(2))
    ultimately show ?thesis by simp
  qed
  with r show ?thesis by simp
qed

text \<open>
  Claim C9, as the code has it. A call of \<open>markAttendance\<close> that fails leaves the
  provider's roster and every table of the store as they were; only a photo uploaded
  before the refused write stays in the bucket. A call of \<open>handleAddParticipant\<close> that
  fails writes no participant; it leaves the store as it was unless no team was below
  capacity, the group ``Team n+1'' was inserted and the participant insert after it was
  refused: the two inserts are separate requests, and the new, empty group stays.
\<close>

theorem failed_operation_leaves_tables:
  "(markAttendance env db st mid stat photo loc = (Some e, st', db') \<longrightarrow>
      st' = st \<and> db' \<lparr> photos := photos db \<rparr> = db) \<and>
   (handleAddParticipant aenv usr db tst = (Some e2, tst', db2) \<longrightarrow>
      db2 = db \<or>
      (availableTeams tst = [] \<and>
       db2 = db \<lparr> groups := groups db @
                     [\<lparr> g_id = Suc (groups_seq db),
                        g_name = ''Team '' @ toString (length (teams tst) + 1),
                        g_created_at = add_db_now aenv \<rparr>],
                   groups_seq := Suc (groups_seq db) \<rparr>))"
proof (rule conjI; rule impI)
  assume m: "markAttendance env db st mid stat photo loc = (Some e, st', db')"
  then show "st' = st \<and> db' \<lparr> photos := photos db \<rparr> = db"
  proof (cases rule: markAttendance_cases)
    case not_found then show ?thesis by simp
  next
    case (failed member fp e') then show ?thesis by (simp add: final_photo_tables)
  next
    case (inserted member fp db1 r) then show ?thesis by simp
  next
    case (updated member fp db1 aid) then show ?thesis by simp
  qed
next
  assume h: "handleAddParticipant aenv usr db tst = (Some e2, tst', db2)"
  then show "db2 = db \<or>
      (availableTeams tst = [] \<and>
       db2 = db \<lparr> groups := groups db @
                     [\<lparr> g_id = Suc (groups_seq db),
                        g_name = ''Team '' @ toString (length (teams tst) + 1),
                        g_created_at = add_db_now aenv \<rparr>],
                   groups_seq := Suc (groups_seq db) \<rparr>)"
  proof (cases rule: handleAddParticipant_cases)
    case ignored then show ?thesis by simp
  next
    case (assign_failed e') then show ?thesis by simp
  next
    case (insert_failed tid tname st1 e')
    from insert_failed(3) show ?thesis by (rule assign_team_groups)
  next
    case (registered tid tname st1 db1 p) then show ?thesis by simp
  qed
qed

lemma ex_trim: "trim ''Sofea'' = ''Sofea''"
  by (simp add: trim_def is_space_def)

lemma ex_available: "availableTeams ex_teams = []"
  by (simp add: availableTeams_def ex_teams_def ex_db_def MAX_MEMBERS_PER_TEAM_def)

lemma ex_failed_registration:
  "handleAddParticipant (ex_add_env \<lparr> participant_insert_fails := True \<rparr>) None ex_db ex_teams =
     (Some StorageUnavailable,
      ex_teams \<lparr> teams := teams ex_teams @ [\<lparr> team_id = 2, team_name = ''Team 2'', team_members = [] \<rparr>],
                 teams_error := Some ''Failed to add participant'' \<rparr>,
      ex_db \<lparr> groups := groups ex_db @
                 [\<lparr> g_id = 2, g_name = ''Team 2'', g_created_at = ''2025-01-02T02:00:00Z'' \<rparr>],
              groups_seq := 2 \<rparr>)"
proof -
  have a: "assign_team (ex_add_env \<lparr> participant_insert_fails := True \<rparr>) ex_db ex_teams =
     Inr (2, ''Team 2'',
          ex_teams \<lparr> teams := teams ex_teams @ [\<lparr> team_id = 2, team_name = ''Team 2'', team_members = [] \<rparr>] \<rparr>,
          ex_db \<lparr> groups := groups ex_db @
                 [\<lparr> g_id = 2, g_name = ''Team 2'', g_created_at = ''2025-01-02T02:00:00Z'' \<rparr>],
              groups_seq := 2 \<rparr>)"
    by (simp add: assign_team_def ex_available insert_group_def Let_def ex_add_env_def)
       (simp add: ex_teams_def ex_db_def toString_def digit_char_def)
  have n: "newParticipantName ex_teams = ''Sofea''" "\<not> isAddingParticipant ex_teams"
    by (simp_all add: ex_teams_def)
  show ?thesis
    by (simp add: handleAddParticipant_def n ex_trim a insert_participant_def Let_def)
qed

lemma ex_roster_members:
  "members ex_roster =
     [\<lparr> member_id = 12, name = ''Ehara Tomoka'', department = protocol_ceremonial,
        attendance_id = None, attendance_date = ''2025-01-02'', status = Absent,
        photo_url = None, ma_latitude = None, ma_longitude = None, ma_accuracy = None,
        ma_address = None, check_in_time = None \<rparr>]"
  by (simp add: ex_roster_def combined_def select_committee_members_def select_attendance_def
      combine_member_def ex_db_def ex_member_def Let_def)

lemma ex_failed_mark:
  "markAttendance (ex_mark_env \<lparr> write_fails := True \<rparr>) ex_db ex_roster 12 Attend None None =
     (Some StorageUnavailable, ex_roster, ex_db)"
  by (simp add: markAttendance_def ex_roster_members final_photo_def insert_attendance_def
      ex_mark_env_def Let_def)

text \<open>
  Claim C9 as stated does not hold: with the one team full, the registration inserts the
  group ``Team 2'', its participant insert is refused, and the group stays in the store.
\<close>

theorem failed_registration_counterexample:
  "handleAddParticipant (ex_add_env \<lparr> participant_insert_fails := True \<rparr>) None ex_db ex_teams =
     (Some StorageUnavailable,
      ex_teams \<lparr> teams := teams ex_teams @ [\<lparr> team_id = 2, team_name = ''Team 2'', team_members = [] \<rparr>],
                 teams_error := Some ''Failed to add participant'' \<rparr>,
      ex_db \<lparr> groups := groups ex_db @
                 [\<lparr> g_id = 2, g_name = ''Team 2'', g_created_at = ''2025-01-02T02:00:00Z'' \<rparr>],
              groups_seq := 2 \<rparr>)
   \<and> ex_db \<lparr> groups := groups ex_db @
                 [\<lparr> g_id = 2, g_name = ''Team 2'', g_created_at = ''2025-01-02T02:00:00Z'' \<rparr>],
              groups_seq := 2 \<rparr> \<noteq> ex_db"
  using ex_failed_registration by (simp add: ex_db_def)

theorem failed_operation_leaves_tables_witness:
  "markAttendance (ex_mark_env \<lparr> write_fails := True \<rparr>) ex_db ex_roster 12 Attend None None =
     (Some StorageUnavailable, ex_roster, ex_db)
   \<and> ex_db \<lparr> photos := photos ex_db \<rparr> = ex_db
   \<and> fst (handleAddParticipant (ex_add_env \<lparr> participant_insert_fails := True \<rparr>) None ex_db ex_teams) =
       Some StorageUnavailable
   \<and> availableTeams ex_teams = []
   \<and> snd (snd (handleAddParticipant (ex_add_env \<lparr> participant_insert_fails := True \<rparr>) None ex_db ex_teams)) =
       ex_db \<lparr> groups := groups ex_db @
                 [\<lparr> g_id = Suc (groups_seq ex_db),
                    g_name = ''Team '' @ toString (length (teams ex_teams) + 1),
                    g_created_at = add_db_now (ex_add_env \<lparr> participant_insert_fails := True \<rparr>) \<rparr>],
              groups_seq := Suc (groups_seq ex_db) \<rparr>"
proof -
  have ne: "ex_db \<lparr> groups := groups ex_db @
                 [\<lparr> g_id = 2, g_name = ''Team 2'', g_created_at = ''2025-01-02T02:00:00Z'' \<rparr>],
              groups_seq := 2 \<rparr> \<noteq> ex_db"
    by (simp add: ex_db_def)
  show ?thesis
    using failed_operation_leaves_tables
      [of "ex_mark_env \<lparr> write_fails := True \<rparr>" ex_db ex_roster 12 Attend None None
          StorageUnavailable ex_roster ex_db
          "ex_add_env \<lparr> participant_insert_fails := True \<rparr>" None ex_teams StorageUnavailable
          "ex_teams \<lparr> teams := teams ex_teams @ [\<lparr> team_id = 2, team_name = ''Team 2'', team_members = [] \<rparr>],
                 teams_error := Some ''Failed to add participant'' \<rparr>"
          "ex_db \<lparr> groups := groups ex_db @
                 [\<lparr> g_id = 2, g_name = ''Team 2'', g_created_at = ''2025-01-02T02:00:00Z'' \<rparr>],
              groups_seq := 2 \<rparr>"]
      ex_failed_mark ex_failed_registration ne
    by simp
qed


text \<open>
  Claim C8 on the code. \<open>confirmAttendance\<close> passes the logged-in user's id (here 7) as a
  fifth argument; \<open>markAttendance\<close> has no such parameter and \<open>attendanceData\<close> has no
  \<open>marked_by\<close>, so the row it inserts has \<open>marked_by\<close> \<open>NULL\<close>.
\<close>

theorem confirmAttendance_drops_marker:
  "map ar_marked_by
     (attendance (snd (confirmAttendance ex_mark_env ex_db ex_roster (Some 7)
        (Some \<lparr> member_id = 12, name = ''Ehara Tomoka'', department = protocol_ceremonial,
                attendance_id = None, attendance_date = ''2025-01-02'', status = Absent,
                photo_url = None, ma_latitude = None, ma_longitude = None, ma_accuracy = None,
                ma_address = None, check_in_time = None \<rparr>)
        None None))) = [None]"
  by (simp add: confirmAttendance_def markAttendance_def ex_roster_members final_photo_def
      insert_attendance_def new_attendance_row_def Let_def)
     (simp add: ex_db_def ex_member_def ex_mark_env_def)

subsection \<open>Rows of one key in a table with distinct keys\<close>

lemma distinct_key_eq:
  "distinct (map f xs) \<Longrightarrow> x \<in> set xs \<Longrightarrow> y \<in> set xs \<Longrightarrow> f x = f y \<Longrightarrow> x = y"
  by (meson distinct_map inj_onD)

lemma filter_key_single:
  "distinct (map f xs) \<Longrightarrow> x \<in> set xs \<Longrightarrow> filter (\<lambda>y. f y = f x) xs = [x]"
proof (induction xs)
  case Nil then show ?case by simp
next
  case (Cons a xs)
  show ?case
  proof (cases "a = x")
    case True
    with Cons.prems have "f x \<notin> f ` set xs" by simp
    then have "\<forall>y \<in> set xs. f y \<noteq> f x" by (metis image_eqI)
    then have "filter (\<lambda>y. f y = f x) xs = []" by (simp add: filter_empty_conv)
    with True show ?thesis by simp
  next
    case False
    with Cons.prems have "x \<in> set xs" by simp
    moreover from Cons.prems have "f a \<notin> f ` set xs" by simp
    ultimately have "x \<in> set xs" "f a \<noteq> f x" by (metis image_eqI)+
    with Cons show ?thesis by simp
  qed
qed

lemma filter_key_none:
  "k \<notin> f ` set xs \<Longrightarrow> filter (\<lambda>y. f y = k) xs = []"
  by (auto simp: filter_empty_conv)

lemma filter_map_upd_eq:
  "(\<And>x. f (h x) = k) \<Longrightarrow>
   filter (\<lambda>y. f y = k) (map (\<lambda>x. if f x = k then h x else x) xs) = map h (filter (\<lambda>y. f y = k) xs)"
  by (induction xs) auto

lemma filter_map_upd_neq:
  "(\<And>x. f (h x) = k) \<Longrightarrow>
   filter (\<lambda>y. f y \<noteq> k) (map (\<lambda>x. if f x = k then h x else x) xs) = filter (\<lambda>y. f y \<noteq> k) xs"
  by (induction xs) auto

lemma map_upd_by_id:
  assumes "distinct (map i xs)" "distinct (map f xs)" "r \<in> set xs"
  shows "map (\<lambda>x. if i x = i r then h x else x) xs = map (\<lambda>x. if f x = f r then h x else x) xs"
proof (rule map_cong [OF refl])
  fix x assume "x \<in> set xs"
  with assms have "i x = i r \<longleftrightarrow> x = r" "f x = f r \<longleftrightarrow> x = r"
    by (auto dest: distinct_key_eq)
  then show "(if i x = i r then h x else x) = (if f x = f r then h x else x)" by simp
qed


subsection \<open>The invariant of the attendance provider\<close>
lemma store_ok_photo:
  "final_photo env db date mid photo = (fp, db1) \<Longrightarrow> store_ok db1 = store_ok db"
  by (simp add: store_ok_def final_photo_fields)

lemma combined_photo:
  "final_photo env db date mid photo = (fp, db1) \<Longrightarrow> combined db1 d = combined db d"
  by (simp add: combined_def select_attendance_def select_committee_members_def final_photo_fields)

lemma roster_synced_photo:
  "final_photo env db date mid photo = (fp, db1) \<Longrightarrow> roster_synced st db1 = roster_synced st db"
  by (simp add: roster_synced_def combined_photo)

lemma store_ok_insert:
  assumes ok: "store_ok db" and ins: "insert_attendance fails now d db = Inr (r, db')"
  shows "store_ok db'"
proof -
  note i = insert_attendance_Inr [OF ins]
  from ok have bound: "\<forall>x \<in> set (attendance db). ar_id x \<le> attendance_seq db"
    by (simp add: store_ok_def)
  then have "Suc (attendance_seq db) \<notin> ar_id ` set (attendance db)" by force
  with ok i show ?thesis by (auto simp: store_ok_def)
qed

lemma update_keeps_ids:
  "map ar_id (map (\<lambda>r. if ar_id r = i then set_attendance_row now d r else r) rows) = map ar_id rows"
  by (induction rows) auto

lemma store_ok_update:
  assumes ok: "store_ok db" and upd: "update_attendance fails now d i db = Inr db'"
  shows "store_ok db'"
proof -
  note u = update_attendance_Inr [OF upd]
  have ids: "map ar_id (attendance db') = map ar_id (attendance db)"
    by (subst u(1)) (simp add: update_keeps_ids del: map_map)
  have "\<forall>x \<in> set (attendance db'). 0 < ar_id x \<and> ar_id x \<le> attendance_seq db"
  proof
    fix x assume "x \<in> set (attendance db')"
    then have "ar_id x \<in> set (map ar_id (attendance db'))" by simp
    with ids have "ar_id x \<in> ar_id ` set (attendance db)" by simp
    with ok show "0 < ar_id x \<and> ar_id x \<le> attendance_seq db" by (auto simp: store_ok_def)
  qed
  moreover have "attendance_seq db' = attendance_seq db" "committee_members db' = committee_members db"
    by (subst u(1), simp)+
  ultimately show ?thesis using ok u(2) ids by (simp add: store_ok_def)
qed

text \<open>What the roster says about a member's record is what the store holds.\<close>

lemma synced_no_record:
  assumes ok: "store_ok db" and syn: "roster_synced st db"
    and f: "find (\<lambda>m. member_id m = mid) (members st) = Some member"
    and none: "or_null truthy_id (attendance_id member) = None"
  shows "(mid, selectedDate st) \<notin> attendance_key ` set (attendance db)"
proof -
  let ?look = "attendanceMap (select_attendance db (selectedDate st)) mid"
  have a: "attendance_id member = or_null truthy_id (map_option ar_id ?look)"
    using syn f by (rule synced_lookup)
  have "?look = None"
  proof (cases ?look)
    case None then show ?thesis .
  next
    case (Some r)
    with ok have "r \<in> set (attendance db)"
      by (simp add: record_lookup_Some store_ok_def)
    with ok have "0 < ar_id r" by (simp add: store_ok_def)
    with a Some none show ?thesis by (simp add: truthy_id_def)
  qed
  then show ?thesis by (simp add: record_lookup_None)
qed

lemma synced_record:
  assumes ok: "store_ok db" and syn: "roster_synced st db"
    and f: "find (\<lambda>m. member_id m = mid) (members st) = Some member"
    and some: "or_null truthy_id (attendance_id member) = Some aid"
  obtains r where "r \<in> set (attendance db)" "attendance_key r = (mid, selectedDate st)" "ar_id r = aid"
proof -
  let ?look = "attendanceMap (select_attendance db (selectedDate st)) mid"
  have a: "attendance_id member = or_null truthy_id (map_option ar_id ?look)"
    using syn f by (rule synced_lookup)
  with some obtain r where r: "?look = Some r" "ar_id r = aid"
    by (cases ?look) (auto split: if_splits)
  with ok have "r \<in> set (attendance db)" "attendance_key r = (mid, selectedDate st)"
    by (simp_all add: record_lookup_Some store_ok_def)
  with r that show ?thesis by blast
qed


lemma roster_view_combine:
  "roster_view (combine_member amap d cm) =
     (cm_id cm, or_null truthy_id (map_option ar_id (amap (cm_id cm))))"
  by (simp add: roster_view_def)

lemma roster_view_mark_local [simp]:
  "roster_view (mark_local now stat fp loc m) = roster_view m"
  by (simp add: roster_view_def mark_local_def)

lemma roster_view_set_id [simp]:
  "roster_view (m \<lparr> attendance_id := a \<rparr>) = (member_id m, a)"
  by (simp add: roster_view_def)

lemma date_new_row [simp]: "ar_attendance_date (new_attendance_row i now d) = ad_attendance_date d"
  by (simp add: new_attendance_row_def)

lemma member_new_row [simp]:
  "ar_committee_member_id (new_attendance_row i now d) = ad_committee_member_id d"
  by (simp add: new_attendance_row_def)

lemma synced_after_insert:
  assumes syn: "roster_synced st db"
    and ins: "insert_attendance fails now (make_attendanceData pnow mid (selectedDate st) stat fp loc) db
                = Inr (r, db')"
  shows "roster_synced
           (st \<lparr> members := map (\<lambda>m. if member_id m = mid
                    then (mark_local lnow stat fp loc m) \<lparr> attendance_id := Some (ar_id r) \<rparr>
                    else m) (members st) \<rparr>) db'"
proof -
  let ?d = "selectedDate st"
  define g :: "nat \<times> nat option \<Rightarrow> nat \<times> nat option"
    where "g = (\<lambda>v. if fst v = mid then (mid, Some (ar_id r)) else v)"
  define L where "L = (\<lambda>m. if member_id m = mid
                    then (mark_local lnow stat fp loc m) \<lparr> attendance_id := Some (ar_id r) \<rparr>
                    else m)"
  note i = insert_attendance_Inr [OF ins]
  have r: "ar_attendance_date r = ?d" "ar_committee_member_id r = mid" "ar_id r = Suc (attendance_seq db)"
    by (simp_all add: i(1))
  have sel: "select_attendance db' ?d = select_attendance db ?d @ [r]"
    by (subst i(2)) (simp add: select_attendance_def r)
  have cms: "select_committee_members db' = select_committee_members db"
    by (subst i(2)) (simp add: select_committee_members_def)
  have "roster_view (combine_member (attendanceMap (select_attendance db' ?d)) ?d cm) =
        g (roster_view (combine_member (attendanceMap (select_attendance db ?d)) ?d cm))" for cm
    unfolding sel by (simp add: roster_view_combine r truthy_id_def g_def)
  then have B: "map roster_view (combined db' ?d) = map g (map roster_view (combined db ?d))"
    unfolding combined_def cms by simp
  have "roster_view (L m) = g (roster_view m)" for m
    by (simp add: L_def g_def roster_view_def mark_local_def)
  then have A: "map roster_view (map L (members st)) = map g (map roster_view (members st))"
    by simp
  from syn have "map roster_view (members st) = map roster_view (combined db ?d)"
    by (simp add: roster_synced_def)
  with A B have "map roster_view (map L (members st)) = map roster_view (combined db' ?d)"
    by simp
  then show ?thesis by (simp add: roster_synced_def L_def)
qed

lemma synced_after_update:
  assumes ok: "store_ok db" and syn: "roster_synced st db"
    and r: "r \<in> set (attendance db)" "attendance_key r = (mid, selectedDate st)"
    and upd: "update_attendance fails now (make_attendanceData pnow mid (selectedDate st) stat fp loc)
                (ar_id r) db = Inr db'"
  shows "roster_synced
           (st \<lparr> members := map (\<lambda>m. if member_id m = mid then mark_local lnow stat fp loc m else m)
                               (members st) \<rparr>) db'"
    and "attendance db' =
           map (\<lambda>x. if attendance_key x = (mid, selectedDate st)
                     then set_attendance_row now (make_attendanceData pnow mid (selectedDate st) stat fp loc) x
                     else x) (attendance db)"
proof -
  let ?d = "selectedDate st"
  let ?data = "make_attendanceData pnow mid ?d stat fp loc"
  define U where "U = (\<lambda>x. if attendance_key x = (mid, ?d) then set_attendance_row now ?data x else x)"
  define L where "L = (\<lambda>m. if member_id m = mid then mark_local lnow stat fp loc m else m)"
  note u = update_attendance_Inr [OF upd]
  from ok have dist: "distinct (map ar_id (attendance db))" "distinct (map attendance_key (attendance db))"
    by (simp_all add: store_ok_def)
  have "attendance db' = map (\<lambda>x. if ar_id x = ar_id r then set_attendance_row now ?data x else x) (attendance db)"
    by (subst u(1)) simp
  also have "\<dots> = map (\<lambda>x. if attendance_key x = attendance_key r then set_attendance_row now ?data x else x) (attendance db)"
    using dist r(1) by (rule map_upd_by_id)
  finally have rows: "attendance db' = map U (attendance db)" by (simp add: r(2) U_def)
  then show "attendance db' =
           map (\<lambda>x. if attendance_key x = (mid, selectedDate st)
                     then set_attendance_row now (make_attendanceData pnow mid (selectedDate st) stat fp loc) x
                     else x) (attendance db)"
    by (simp add: U_def)
  have keyU: "attendance_key (U x) = attendance_key x" for x by (simp add: U_def)
  have idU: "ar_id (U x) = ar_id x" for x by (simp add: U_def)
  have look: "map_option ar_id (attendanceMap (select_attendance db' ?d) m) =
              map_option ar_id (attendanceMap (select_attendance db ?d) m)" for m
  proof (cases "attendanceMap (select_attendance db ?d) m")
    case None
    then have "(m, ?d) \<notin> attendance_key ` set (attendance db)" by (simp add: record_lookup_None)
    moreover have "attendance_key ` set (attendance db') = attendance_key ` set (attendance db)"
      unfolding rows by (simp add: image_image keyU)
    ultimately have "attendanceMap (select_attendance db' ?d) m = None" by (simp add: record_lookup_None)
    with None show ?thesis by simp
  next
    case (Some x)
    with dist have x: "x \<in> set (attendance db)" "attendance_key x = (m, ?d)"
      by (simp_all add: record_lookup_Some)
    then have "U x \<in> set (attendance db')" unfolding rows by simp
    moreover have "attendance_key (U x) = (m, ?d)" using x(2) keyU by simp
    ultimately have "attendanceMap (select_attendance db' ?d) m = Some (U x)"
      using u(2) by (simp add: record_lookup_Some)
    with Some idU show ?thesis by simp
  qed
  have cms: "select_committee_members db' = select_committee_members db"
    by (subst u(1)) (simp add: select_committee_members_def)
  have B: "map roster_view (combined db' ?d) = map roster_view (combined db ?d)"
    unfolding combined_def cms by (simp add: roster_view_combine look)
  have "roster_view (L m) = roster_view m" for m by (simp add: L_def)
  then have A: "map roster_view (map L (members st)) = map roster_view (members st)" by simp
  from syn have "map roster_view (members st) = map roster_view (combined db ?d)"
    by (simp add: roster_synced_def)
  with A B have "map roster_view (map L (members st)) = map roster_view (combined db' ?d)"
    by simp
  then show "roster_synced
           (st \<lparr> members := map (\<lambda>m. if member_id m = mid then mark_local lnow stat fp loc m else m)
                               (members st) \<rparr>) db'"
    by (simp add: roster_synced_def L_def)
qed

lemma selectedDate_mark:
  assumes "markAttendance env db st mid stat photo loc = (res, st', db')"
  shows "selectedDate st' = selectedDate st"
  using assms by (cases rule: markAttendance_cases) simp_all

lemma markAttendance_invariant:
  assumes ok: "store_ok db" and syn: "roster_synced st db"
    and m: "markAttendance env db st mid stat photo loc = (res, st', db')"
  shows "store_ok db' \<and> roster_synced st' db'"
  using m
proof (cases rule: markAttendance_cases)
  case not_found
  with ok syn show ?thesis by simp
next
  case (failed member fp e)
  with ok syn show ?thesis by (simp add: store_ok_photo roster_synced_photo)
next
  case (inserted member fp db1 r)
  from inserted(2) ok syn have ok1: "store_ok db1" and syn1: "roster_synced st db1"
    by (simp_all add: store_ok_photo roster_synced_photo)
  from ok1 inserted(4) have "store_ok db'" by (rule store_ok_insert)
  moreover from syn1 inserted(4) have "roster_synced st' db'"
    unfolding inserted(6) by (rule synced_after_insert)
  ultimately show ?thesis by simp
next
  case (updated member fp db1 aid)
  from updated(2) ok syn have ok1: "store_ok db1" and syn1: "roster_synced st db1"
    by (simp_all add: store_ok_photo roster_synced_photo)
  from ok1 updated(4) have "store_ok db'" by (rule store_ok_update)
  moreover obtain r where r: "r \<in> set (attendance db1)" "attendance_key r = (mid, selectedDate st)"
      "ar_id r = aid"
    using ok1 syn1 updated(1,3) by (rule synced_record)
  from updated(4) have "update_attendance (write_fails env) (db_now env)
          (make_attendanceData (payload_now env) mid (selectedDate st) stat fp loc) (ar_id r) db1 = Inr db'"
    by (simp add: r(3))
  with ok1 syn1 r(1,2) have "roster_synced st' db'"
    unfolding updated(6) by (rule synced_after_update(1))
  ultimately show ?thesis by simp
qed

text \<open>A successful call either appends the pair's first row or rewrites its only row.\<close>

lemma markAttendance_rows:
  assumes ok: "store_ok db" and syn: "roster_synced st db"
    and m: "markAttendance env db st mid stat photo loc = (None, st', db')"
  shows "(records_for db mid (selectedDate st) = [] \<and>
          attendance db' = attendance db @
            [new_attendance_row (Suc (attendance_seq db)) (db_now env)
               (make_attendanceData (payload_now env) mid (selectedDate st) stat
                  (fst (final_photo env db (selectedDate st) mid photo)) loc)]) \<or>
         (\<exists>r. records_for db mid (selectedDate st) = [r] \<and>
          attendance db' =
            map (\<lambda>x. if attendance_key x = (mid, selectedDate st)
                      then set_attendance_row (db_now env)
                             (make_attendanceData (payload_now env) mid (selectedDate st) stat
                                (fst (final_photo env db (selectedDate st) mid photo)) loc) x
                      else x) (attendance db))"
  using m
proof (cases rule: markAttendance_cases)
  case not_found then show ?thesis by simp
next
  case (failed member fp e) then show ?thesis by simp
next
  case (inserted member fp db1 r)
  from inserted(2) ok syn have ok1: "store_ok db1" and syn1: "roster_synced st db1"
    by (simp_all add: store_ok_photo roster_synced_photo)
  have "(mid, selectedDate st) \<notin> attendance_key ` set (attendance db1)"
    using ok1 syn1 inserted(1,3) by (rule synced_no_record)
  then have "records_for db mid (selectedDate st) = []"
    by (simp add: records_for_def filter_key_none final_photo_fields [OF inserted(2)])
  moreover note i = insert_attendance_Inr [OF inserted(4)]
  have "attendance db' = attendance db @ [r]"
    by (subst i(2)) (simp add: final_photo_fields [OF inserted(2)])
  ultimately show ?thesis
    by (simp add: i(1) inserted(2) final_photo_fields [OF inserted(2)])
next
  case (updated member fp db1 aid)
  from updated(2) ok syn have ok1: "store_ok db1" and syn1: "roster_synced st db1"
    by (simp_all add: store_ok_photo roster_synced_photo)
  obtain r where r: "r \<in> set (attendance db1)" "attendance_key r = (mid, selectedDate st)"
      "ar_id r = aid"
    using ok1 syn1 updated(1,3) by (rule synced_record)
  from updated(4) have u: "update_attendance (write_fails env) (db_now env)
          (make_attendanceData (payload_now env) mid (selectedDate st) stat fp loc) (ar_id r) db1 = Inr db'"
    by (simp add: r(3))
  have rows: "attendance db' =
           map (\<lambda>x. if attendance_key x = (mid, selectedDate st)
                     then set_attendance_row (db_now env)
                            (make_attendanceData (payload_now env) mid (selectedDate st) stat fp loc) x
                     else x) (attendance db1)"
    using ok1 syn1 r(1,2) u by (rule synced_after_update(2))
  from ok1 have "distinct (map attendance_key (attendance db1))" by (simp add: store_ok_def)
  then have "filter (\<lambda>y. attendance_key y = attendance_key r) (attendance db1) = [r]"
    using r(1) by (rule filter_key_single)
  then have "records_for db mid (selectedDate st) = [r]"
    by (simp add: records_for_def r(2) final_photo_fields [OF updated(2)])
  with rows show ?thesis
    by (simp add: updated(2) final_photo_fields [OF updated(2)])
qed

lemma records_after_append:
  "attendance db' = attendance db @ [r] \<Longrightarrow> attendance_key r = (m, d) \<Longrightarrow>
   records_for db' m d = records_for db m d @ [r] \<and> records_beside db' m d = records_beside db m d"
  by (simp add: records_for_def records_beside_def)

lemma records_after_rewrite:
  assumes "attendance db' = map (\<lambda>x. if attendance_key x = (m, d) then set_attendance_row now data x else x)
                              (attendance db)"
    and "ad_committee_member_id data = m" "ad_attendance_date data = d"
  shows "records_for db' m d = map (set_attendance_row now data) (records_for db m d)"
    and "records_beside db' m d = records_beside db m d"
    and "map ar_id (attendance db') = map ar_id (attendance db)"
proof -
  have k: "attendance_key (set_attendance_row now data x) = (m, d)" for x
    by (simp add: assms(2,3))
  show "records_for db' m d = map (set_attendance_row now data) (records_for db m d)"
    unfolding records_for_def assms(1) using k by (rule filter_map_upd_eq)
  show "records_beside db' m d = records_beside db m d"
    unfolding records_beside_def assms(1) using k by (rule filter_map_upd_neq)
  show "map ar_id (attendance db') = map ar_id (attendance db)"
    unfolding assms(1) by (induction "attendance db") (simp_all add: comp_def)
qed


lemma ex_store_ok: "store_ok ex_db"
  by (simp add: store_ok_def ex_db_def)

lemma ex_roster_synced: "roster_synced ex_roster ex_db"
  by (simp add: roster_synced_def ex_roster_def)


lemma written_new_row [simp]:
  "ar_status (new_attendance_row i now (make_attendanceData pnow mid d stat fp loc)) = stat"
  "ar_check_in_time (new_attendance_row i now (make_attendanceData pnow mid d stat fp loc)) =
     (if stat = Attend then Some pnow else None)"
  by (simp_all add: new_attendance_row_def make_attendanceData_def)

lemma written_set_row [simp]:
  "ar_status (set_attendance_row now (make_attendanceData pnow mid d stat fp loc) r) = stat"
  "ar_check_in_time (set_attendance_row now (make_attendanceData pnow mid d stat fp loc) r) =
     (if stat = Attend then Some pnow else None)"
  by (simp_all add: set_attendance_row_def make_attendanceData_def)

lemma markAttendance_written_rows:
  assumes "markAttendance env db st mid stat photo loc = (res, st', db')"
    and "r \<in> set (attendance db')"
  shows "r \<in> set (attendance db) \<or>
         (ar_status r = stat \<and>
          ar_check_in_time r = (if stat = Attend then Some (payload_now env) else None))"
  using assms(1)
proof (cases rule: markAttendance_cases)
  case not_found with assms(2) show ?thesis by simp
next
  case (failed member fp e)
  with assms(2) show ?thesis by (simp add: final_photo_fields)
next
  case (inserted member fp db1 r')
  note i = insert_attendance_Inr [OF inserted(4)]
  from assms(2) have "r \<in> set (attendance db1) \<or> r = r'"
    by (subst (asm) i(2)) auto
  then show ?thesis
    by (auto simp: final_photo_fields [OF inserted(2)] i(1))
next
  case (updated member fp db1 aid)
  note u = update_attendance_Inr [OF updated(4)]
  let ?data = "make_attendanceData (payload_now env) mid (selectedDate st) stat fp loc"
  from assms(2) have "r \<in> set (map (\<lambda>r. if ar_id r = aid then set_attendance_row (db_now env) ?data r else r)
                                   (attendance db1))"
    by (subst (asm) u(1)) simp
  then obtain x where "x \<in> set (attendance db1)"
      "r = (if ar_id x = aid then set_attendance_row (db_now env) ?data x else x)"
    by auto
  then show ?thesis
    by (cases "ar_id x = aid") (simp_all add: final_photo_fields [OF updated(2)])
qed

text \<open>After a successful call the pair has exactly one record, with what the call wrote.\<close>

lemma markAttendance_record:
  assumes ok: "store_ok db" and syn: "roster_synced st db"
    and m: "markAttendance env db st mid stat photo loc = (None, st', db')"
  shows "\<exists>r. records_for db' mid (selectedDate st) = [r] \<and> ar_status r = stat \<and>
             ar_check_in_time r = (if stat = Attend then Some (payload_now env) else None)"
proof -
  let ?d = "selectedDate st"
  let ?data = "make_attendanceData (payload_now env) mid ?d stat
                 (fst (final_photo env db ?d mid photo)) loc"
  from ok syn m consider
      (ins) "records_for db mid ?d = []"
        "attendance db' = attendance db @ [new_attendance_row (Suc (attendance_seq db)) (db_now env) ?data]"
    | (upd) r where "records_for db mid ?d = [r]"
        "attendance db' = map (\<lambda>x. if attendance_key x = (mid, ?d)
                      then set_attendance_row (db_now env) ?data x else x) (attendance db)"
    using markAttendance_rows [of db st env mid stat photo loc st' db'] by auto
  then show ?thesis
  proof cases
    case ins
    from ins(2) have "records_for db' mid ?d =
        records_for db mid ?d @ [new_attendance_row (Suc (attendance_seq db)) (db_now env) ?data]"
      by (simp add: records_after_append)
    with ins(1) show ?thesis by simp
  next
    case (upd r)
    have "records_for db' mid ?d = [set_attendance_row (db_now env) ?data r]"
      by (simp add: records_after_rewrite(1) [OF upd(2)] upd(1))
    then show ?thesis by simp
  qed
qed


lemma ex_roster_eq: "ex_roster = ex_roster_with (ex_entry None Absent None)"
  by (simp add: ex_roster_def ex_roster_with_def ex_entry_def combined_def select_committee_members_def
      select_attendance_def combine_member_def ex_db_def ex_member_def Let_def)

lemma ex_mark_insert:
  "markAttendance ex_mark_env ex_db ex_roster 12 st None None =
     (None,
      ex_roster_with (ex_entry (Some 41) st (if st = Attend then Some ''2025-01-02T01:00:00.001Z'' else None)),
      ex_db_with (ex_row st (if st = Attend then Some ''2025-01-02T01:00:00.000Z'' else None)))"
  by (simp add: ex_roster_eq markAttendance_def ex_roster_with_def ex_entry_def final_photo_def
      insert_attendance_def new_attendance_row_def make_attendanceData_def mark_local_def Let_def
      ex_db_with_def ex_row_def)
     (simp add: ex_db_def ex_member_def ex_mark_env_def)

lemma ex_mark_update:
  "markAttendance ex_mark_env (ex_db_with (ex_row st0 t0)) (ex_roster_with (ex_entry (Some 41) st0 t0')) 12 st None None =
     (None,
      ex_roster_with (ex_entry (Some 41) st (if st = Attend then Some ''2025-01-02T01:00:00.001Z'' else None)),
      ex_db_with (ex_row st (if st = Attend then Some ''2025-01-02T01:00:00.000Z'' else None)))"
  by (simp add: markAttendance_def ex_roster_with_def ex_entry_def final_photo_def
      update_attendance_def set_attendance_row_def make_attendanceData_def mark_local_def Let_def
      ex_db_with_def ex_row_def truthy_id_def)
     (simp add: ex_db_def ex_member_def ex_mark_env_def attendance_key_def)


text \<open>
  Claim C7. Every row that a call of \<open>markAttendance\<close> leaves in the attendance table is
  a row that was there before or carries the call's status with \<open>check_in_time\<close> set to
  the call's ``now'' when that status is \<open>attend\<close> and to null when it is \<open>absent\<close>. In a
  state where the store meets its constraints and the roster is the read path's view, a
  successful call leaves exactly one record for the pair, with that status and
  \<open>check_in_time\<close>. Hence marking a member absent, then attend, then absent on the same
  date leaves exactly one row for the pair, with status \<open>absent\<close> and no check-in time.
\<close>

theorem markAttendance_check_in_time:
  "(markAttendance env db st mid stat photo loc = (res, st', db') \<longrightarrow>
      (\<forall>r \<in> set (attendance db').
          r \<in> set (attendance db) \<or>
          (ar_status r = stat \<and>
           ar_check_in_time r = (if stat = Attend then Some (payload_now env) else None)))) \<and>
   (store_ok db \<and> roster_synced st db \<and>
    markAttendance env db st mid stat photo loc = (None, st', db') \<longrightarrow>
      (\<exists>r. records_for db' mid (selectedDate st) = [r] \<and> ar_status r = stat \<and>
           ar_check_in_time r = (if stat = Attend then Some (payload_now env) else None))) \<and>
   (store_ok db \<and> roster_synced st db \<and>
    markAttendance ea db st mid Absent pa la = (None, sta, dba) \<and>
    markAttendance eb dba sta mid Attend pb lb = (None, stb, dbb) \<and>
    markAttendance ec dbb stb mid Absent pc lc = (None, stc, dbc) \<longrightarrow>
      (\<exists>r. records_for dbc mid (selectedDate st) = [r] \<and> ar_status r = Absent \<and>
           ar_check_in_time r = None))"
proof (intro conjI impI ballI)
  fix r
  assume "markAttendance env db st mid stat photo loc = (res, st', db')" "r \<in> set (attendance db')"
  then show "r \<in> set (attendance db) \<or>
          (ar_status r = stat \<and>
           ar_check_in_time r = (if stat = Attend then Some (payload_now env) else None))"
    by (rule markAttendance_written_rows)
next
  assume "store_ok db \<and> roster_synced st db \<and>
    markAttendance env db st mid stat photo loc = (None, st', db')"
  then show "\<exists>r. records_for db' mid (selectedDate st) = [r] \<and> ar_status r = stat \<and>
           ar_check_in_time r = (if stat = Attend then Some (payload_now env) else None)"
    using markAttendance_record by blast
next
  assume a: "store_ok db \<and> roster_synced st db \<and>
    markAttendance ea db st mid Absent pa la = (None, sta, dba) \<and>
    markAttendance eb dba sta mid Attend pb lb = (None, stb, dbb) \<and>
    markAttendance ec dbb stb mid Absent pc lc = (None, stc, dbc)"
  then have i1: "store_ok dba \<and> roster_synced sta dba" and d1: "selectedDate sta = selectedDate st"
    using markAttendance_invariant selectedDate_mark by blast+
  with a have i2: "store_ok dbb \<and> roster_synced stb dbb" and d2: "selectedDate stb = selectedDate st"
    using markAttendance_invariant [of dba sta eb mid Attend pb lb None stb dbb]
      selectedDate_mark [of eb dba sta mid Attend pb lb None stb dbb] by simp_all
  with a have "\<exists>r. records_for dbc mid (selectedDate stb) = [r] \<and> ar_status r = Absent \<and>
           ar_check_in_time r = (if Absent = Attend then Some (payload_now ec) else None)"
    using markAttendance_record [of dbb stb ec mid Absent pc lc stc dbc] by simp
  then show "\<exists>r. records_for dbc mid (selectedDate st) = [r] \<and> ar_status r = Absent \<and>
           ar_check_in_time r = None"
    by (simp add: d2)
qed

theorem markAttendance_check_in_time_witness:
  "store_ok ex_db \<and> roster_synced ex_roster ex_db \<and>
   markAttendance ex_mark_env ex_db ex_roster 12 Absent None None =
     (None, ex_roster_with (ex_entry (Some 41) Absent None), ex_db_with (ex_row Absent None)) \<and>
   markAttendance ex_mark_env (ex_db_with (ex_row Absent None))
       (ex_roster_with (ex_entry (Some 41) Absent None)) 12 Attend None None =
     (None, ex_roster_with (ex_entry (Some 41) Attend (Some ''2025-01-02T01:00:00.001Z'')),
      ex_db_with (ex_row Attend (Some ''2025-01-02T01:00:00.000Z''))) \<and>
   markAttendance ex_mark_env (ex_db_with (ex_row Attend (Some ''2025-01-02T01:00:00.000Z'')))
       (ex_roster_with (ex_entry (Some 41) Attend (Some ''2025-01-02T01:00:00.001Z''))) 12 Absent None None =
     (None, ex_roster_with (ex_entry (Some 41) Absent None), ex_db_with (ex_row Absent None)) \<and>
   (\<exists>r. records_for (ex_db_with (ex_row Absent None)) 12 (selectedDate ex_roster) = [r] \<and>
        ar_status r = Absent \<and> ar_check_in_time r = None) \<and>
   (\<exists>r. records_for (ex_db_with (ex_row Attend (Some ''2025-01-02T01:00:00.000Z''))) 12
          (selectedDate (ex_roster_with (ex_entry (Some 41) Absent None))) = [r] \<and>
        ar_status r = Attend \<and> ar_check_in_time r = Some (payload_now ex_mark_env))"
proof -
  have m1: "markAttendance ex_mark_env ex_db ex_roster 12 Absent None None =
     (None, ex_roster_with (ex_entry (Some 41) Absent None), ex_db_with (ex_row Absent None))"
    by (simp add: ex_mark_insert)
  have m2: "markAttendance ex_mark_env (ex_db_with (ex_row Absent None))
       (ex_roster_with (ex_entry (Some 41) Absent None)) 12 Attend None None =
     (None, ex_roster_with (ex_entry (Some 41) Attend (Some ''2025-01-02T01:00:00.001Z'')),
      ex_db_with (ex_row Attend (Some ''2025-01-02T01:00:00.000Z'')))"
    by (simp add: ex_mark_update)
  have m3: "markAttendance ex_mark_env (ex_db_with (ex_row Attend (Some ''2025-01-02T01:00:00.000Z'')))
       (ex_roster_with (ex_entry (Some 41) Attend (Some ''2025-01-02T01:00:00.001Z''))) 12 Absent None None =
     (None, ex_roster_with (ex_entry (Some 41) Absent None), ex_db_with (ex_row Absent None))"
    by (simp add: ex_mark_update)
  have inv1: "store_ok (ex_db_with (ex_row Absent None)) \<and>
              roster_synced (ex_roster_with (ex_entry (Some 41) Absent None)) (ex_db_with (ex_row Absent None))"
    using ex_store_ok ex_roster_synced m1 by (rule markAttendance_invariant)
  note t = markAttendance_check_in_time
    [where env = ex_mark_env and db = "ex_db_with (ex_row Absent None)"
       and st = "ex_roster_with (ex_entry (Some 41) Absent None)"
       and mid = 12 and stat = Attend and photo = None and loc = None
       and st' = "ex_roster_with (ex_entry (Some 41) Attend (Some ''2025-01-02T01:00:00.001Z''))"
       and db' = "ex_db_with (ex_row Attend (Some ''2025-01-02T01:00:00.000Z''))"]
  note s = markAttendance_check_in_time
    [where db = ex_db and st = ex_roster and mid = 12
       and ea = ex_mark_env and pa = None and la = None
       and sta = "ex_roster_with (ex_entry (Some 41) Absent None)"
       and dba = "ex_db_with (ex_row Absent None)"
       and eb = ex_mark_env and pb = None and lb = None
       and stb = "ex_roster_with (ex_entry (Some 41) Attend (Some ''2025-01-02T01:00:00.001Z''))"
       and dbb = "ex_db_with (ex_row Attend (Some ''2025-01-02T01:00:00.000Z''))"
       and ec = ex_mark_env and pc = None and lc = None
       and stc = "ex_roster_with (ex_entry (Some 41) Absent None)"
       and dbc = "ex_db_with (ex_row Absent None)"]
  from t inv1 m2 have two: "\<exists>r. records_for (ex_db_with (ex_row Attend (Some ''2025-01-02T01:00:00.000Z''))) 12
          (selectedDate (ex_roster_with (ex_entry (Some 41) Absent None))) = [r] \<and>
        ar_status r = Attend \<and> ar_check_in_time r = Some (payload_now ex_mark_env)"
    by simp
  from s ex_store_ok ex_roster_synced m1 m2 m3
  have three: "\<exists>r. records_for (ex_db_with (ex_row Absent None)) 12 (selectedDate ex_roster) = [r] \<and>
        ar_status r = Absent \<and> ar_check_in_time r = None"
    by blast
  from ex_store_ok ex_roster_synced m1 m2 m3 two three show ?thesis by blast
qed


















lemma distinct_map_insort_key:
  "distinct (map f (insort_key f a xs)) \<longleftrightarrow> distinct (map f (a # xs))"
  by (induction xs) (auto simp: set_insort_key)

lemma distinct_map_sort_key:
  "distinct (map f (sort_key f xs)) \<longleftrightarrow> distinct (map f xs)"
  by (induction xs) (simp_all add: distinct_map_insort_key)

lemma fetchMembers_members:
  "d \<noteq> [] \<Longrightarrow> members (fetchMembers False False db (Some d) showLoading st) = combined db d"
  by (simp add: fetchMembers_def Let_def truthy_str_def)

lemma combine_member_recorded:
  "amap (cm_id cm) = Some r \<Longrightarrow>
   combine_member amap d cm =
     \<lparr> member_id = cm_id cm, name = cm_name cm, department = cm_department cm,
       attendance_id = or_null truthy_id (Some (ar_id r)), attendance_date = d,
       status = ar_status r,
       photo_url = or_null truthy_str (ar_photo_url r),
       ma_latitude = or_null truthy_num (ar_latitude r),
       ma_longitude = or_null truthy_num (ar_longitude r),
       ma_accuracy = or_null truthy_num (ar_accuracy r),
       ma_address = or_null truthy_str (ar_address r),
       check_in_time = or_null truthy_str (ar_check_in_time r) \<rparr>"
  by (simp add: combine_member_def Let_def)

lemma combine_member_unrecorded:
  "amap (cm_id cm) = None \<Longrightarrow>
   combine_member amap d cm =
     \<lparr> member_id = cm_id cm, name = cm_name cm, department = cm_department cm,
       attendance_id = None, attendance_date = d, status = Absent,
       photo_url = None, ma_latitude = None, ma_longitude = None, ma_accuracy = None,
       ma_address = None, check_in_time = None \<rparr>"
  by (simp add: combine_member_def Let_def)

text \<open>
  Claim C2, as the code has it. For a store that meets its key constraints and a date
  \<open>d\<close>, a successful \<open>fetchMembers\<close> returns exactly one entry per committee member, in
  the order of their ids: as many entries as members, no member id twice, and the ids
  of the entries are the ids of the members. The entry of a member with a record for
  \<open>d\<close> carries that record's status and its other fields read through \<open>|| null\<close>, so a
  stored 0 or empty string is returned as null; the entry of a member with no record
  for \<open>d\<close> has status \<open>absent\<close> and null id, photo, location and check-in fields.
\<close>

theorem fetchMembers_one_entry_per_member:
  assumes "distinct (map cm_id (committee_members db))"
    and "distinct (map attendance_key (attendance db))"
    and "d \<noteq> []"
  shows "length (members (fetchMembers False False db (Some d) showLoading st)) =
           length (committee_members db) \<and>
         distinct (map member_id (members (fetchMembers False False db (Some d) showLoading st))) \<and>
         sorted (map member_id (members (fetchMembers False False db (Some d) showLoading st))) \<and>
         member_id ` set (members (fetchMembers False False db (Some d) showLoading st)) =
           cm_id ` set (committee_members db) \<and>
         (\<forall>cm \<in> set (committee_members db).
            (\<forall>r \<in> set (attendance db). attendance_key r = (cm_id cm, d) \<longrightarrow>
               \<lparr> member_id = cm_id cm, name = cm_name cm, department = cm_department cm,
                 attendance_id = or_null truthy_id (Some (ar_id r)), attendance_date = d,
                 status = ar_status r,
                 photo_url = or_null truthy_str (ar_photo_url r),
                 ma_latitude = or_null truthy_num (ar_latitude r),
                 ma_longitude = or_null truthy_num (ar_longitude r),
                 ma_accuracy = or_null truthy_num (ar_accuracy r),
                 ma_address = or_null truthy_str (ar_address r),
                 check_in_time = or_null truthy_str (ar_check_in_time r) \<rparr>
               \<in> set (members (fetchMembers False False db (Some d) showLoading st))) \<and>
            ((cm_id cm, d) \<notin> attendance_key ` set (attendance db) \<longrightarrow>
               \<lparr> member_id = cm_id cm, name = cm_name cm, department = cm_department cm,
                 attendance_id = None, attendance_date = d, status = Absent,
                 photo_url = None, ma_latitude = None, ma_longitude = None, ma_accuracy = None,
                 ma_address = None, check_in_time = None \<rparr>
               \<in> set (members (fetchMembers False False db (Some d) showLoading st))))"
proof -
  let ?amap = "attendanceMap (select_attendance db d)"
  have ms: "members (fetchMembers False False db (Some d) showLoading st) = combined db d"
    using assms(3) by (rule fetchMembers_members)
  have ids: "map member_id (combined db d) = map cm_id (sort_key cm_id (committee_members db))"
    by (simp add: combined_def select_committee_members_def)
  have len: "length (combined db d) = length (committee_members db)"
    by (simp add: combined_def select_committee_members_def)
  have dist: "distinct (map member_id (combined db d))"
    unfolding ids using assms(1) by (simp add: distinct_map_sort_key)
  have srt: "sorted (map member_id (combined db d))"
    unfolding ids by (rule sorted_sort_key)
  have "set (map member_id (combined db d)) = cm_id ` set (committee_members db)"
    unfolding ids by simp
  then have img: "member_id ` set (combined db d) = cm_id ` set (committee_members db)"
    by simp
  have mem: "combine_member ?amap d cm \<in> set (combined db d)" if "cm \<in> set (committee_members db)" for cm
    using that by (simp add: combined_def select_committee_members_def)
  have rec: "\<lparr> member_id = cm_id cm, name = cm_name cm, department = cm_department cm,
                 attendance_id = or_null truthy_id (Some (ar_id r)), attendance_date = d,
                 status = ar_status r,
                 photo_url = or_null truthy_str (ar_photo_url r),
                 ma_latitude = or_null truthy_num (ar_latitude r),
                 ma_longitude = or_null truthy_num (ar_longitude r),
                 ma_accuracy = or_null truthy_num (ar_accuracy r),
                 ma_address = or_null truthy_str (ar_address r),
                 check_in_time = or_null truthy_str (ar_check_in_time r) \<rparr> \<in> set (combined db d)"
    if "cm \<in> set (committee_members db)" "r \<in> set (attendance db)" "attendance_key r = (cm_id cm, d)"
    for cm r
  proof -
    from that(2,3) assms(2) have "?amap (cm_id cm) = Some r" by (simp add: record_lookup_Some)
    then show ?thesis using mem [OF that(1)] by (simp add: combine_member_recorded)
  qed
  have unrec: "\<lparr> member_id = cm_id cm, name = cm_name cm, department = cm_department cm,
                 attendance_id = None, attendance_date = d, status = Absent,
                 photo_url = None, ma_latitude = None, ma_longitude = None, ma_accuracy = None,
                 ma_address = None, check_in_time = None \<rparr> \<in> set (combined db d)"
    if "cm \<in> set (committee_members db)" "(cm_id cm, d) \<notin> attendance_key ` set (attendance db)"
    for cm
  proof -
    from that(2) have "?amap (cm_id cm) = None" by (simp add: record_lookup_None)
    then show ?thesis using mem [OF that(1)] by (simp add: combine_member_unrecorded)
  qed
  show ?thesis unfolding ms using len dist srt img rec unrec by blast
qed

lemma ex_equator_members:
  "members (fetchMembers False False ex_db_equator (Some ''2025-01-02'') True ex_roster) =
     [\<lparr> member_id = 12, name = ''Ehara Tomoka'', department = protocol_ceremonial,
        attendance_id = Some 41, attendance_date = ''2025-01-02'', status = Attend,
        photo_url = ar_photo_url ex_record,
        ma_latitude = None, ma_longitude = Some (1016869 / 10000),
        ma_accuracy = Some 15, ma_address = Some ''Kuala Lumpur'',
        check_in_time = Some ''2025-01-02T00:30:00.000Z'' \<rparr>]"
  by (simp add: fetchMembers_members combined_def select_committee_members_def select_attendance_def
      combine_member_def attendanceMap_def ex_db_equator_def ex_db_def ex_member_def ex_record_def
      truthy_id_def truthy_num_def truthy_str_def Let_def)

text \<open>
  Claim C2 as stated does not hold: the member's record for the date has latitude 0, and
  the entry the read path returns for the member has latitude null.
\<close>

theorem fetchMembers_fields_counterexample:
  "map attendance_key (attendance ex_db_equator) = [(12, ''2025-01-02'')] \<and>
   map ar_latitude (attendance ex_db_equator) = [Some 0] \<and>
   map member_id (members (fetchMembers False False ex_db_equator (Some ''2025-01-02'') True ex_roster)) = [12] \<and>
   map ma_latitude (members (fetchMembers False False ex_db_equator (Some ''2025-01-02'') True ex_roster)) = [None]"
  by (simp add: ex_equator_members) (simp add: ex_db_equator_def attendance_key_def ex_record_def)

theorem fetchMembers_one_entry_per_member_witness:
  "distinct (map cm_id (committee_members ex_db_marked)) \<and>
   distinct (map attendance_key (attendance ex_db_marked)) \<and>
   ''2025-01-02'' \<noteq> [] \<and>
   ex_member \<in> set (committee_members ex_db_marked) \<and>
   ex_record \<in> set (attendance ex_db_marked) \<and>
   attendance_key ex_record = (cm_id ex_member, ''2025-01-02'') \<and>
   (cm_id ex_member, ''2025-01-03'') \<notin> attendance_key ` set (attendance ex_db_marked) \<and>
   length (members (fetchMembers False False ex_db_marked (Some ''2025-01-02'') True ex_roster)) = 1 \<and>
   \<lparr> member_id = 12, name = ''Ehara Tomoka'', department = protocol_ceremonial,
     attendance_id = Some 41, attendance_date = ''2025-01-02'', status = Attend,
     photo_url = ar_photo_url ex_record,
     ma_latitude = Some (3139 / 1000), ma_longitude = Some (1016869 / 10000),
     ma_accuracy = Some 15, ma_address = Some ''Kuala Lumpur'',
     check_in_time = Some ''2025-01-02T00:30:00.000Z'' \<rparr>
     \<in> set (members (fetchMembers False False ex_db_marked (Some ''2025-01-02'') True ex_roster)) \<and>
   ex_entry None Absent None \<lparr> attendance_date := ''2025-01-03'' \<rparr>
     \<in> set (members (fetchMembers False False ex_db_marked (Some ''2025-01-03'') True ex_roster))"
proof -
  have h1: "distinct (map cm_id (committee_members ex_db_marked))"
    and h2: "distinct (map attendance_key (attendance ex_db_marked))"
    by (simp_all add: ex_db_marked_def ex_db_def)
  have h3: "''2025-01-02'' \<noteq> []" and h3': "''2025-01-03'' \<noteq> []" by simp_all
  have c: "ex_member \<in> set (committee_members ex_db_marked)"
    and r: "ex_record \<in> set (attendance ex_db_marked)"
    and k: "attendance_key ex_record = (cm_id ex_member, ''2025-01-02'')"
    and n: "(cm_id ex_member, ''2025-01-03'') \<notin> attendance_key ` set (attendance ex_db_marked)"
    by (simp_all add: ex_db_marked_def ex_db_def attendance_key_def ex_record_def ex_member_def)
  note a = fetchMembers_one_entry_per_member [OF h1 h2 h3, of True ex_roster]
  note b = fetchMembers_one_entry_per_member [OF h1 h2 h3', of True ex_roster]
  from a c r k have "\<lparr> member_id = cm_id ex_member, name = cm_name ex_member,
                 department = cm_department ex_member,
                 attendance_id = or_null truthy_id (Some (ar_id ex_record)), attendance_date = ''2025-01-02'',
                 status = ar_status ex_record,
                 photo_url = or_null truthy_str (ar_photo_url ex_record),
                 ma_latitude = or_null truthy_num (ar_latitude ex_record),
                 ma_longitude = or_null truthy_num (ar_longitude ex_record),
                 ma_accuracy = or_null truthy_num (ar_accuracy ex_record),
                 ma_address = or_null truthy_str (ar_address ex_record),
                 check_in_time = or_null truthy_str (ar_check_in_time ex_record) \<rparr>
     \<in> set (members (fetchMembers False False ex_db_marked (Some ''2025-01-02'') True ex_roster))"
    by blast
  then have e1: "\<lparr> member_id = 12, name = ''Ehara Tomoka'', department = protocol_ceremonial,
     attendance_id = Some 41, attendance_date = ''2025-01-02'', status = Attend,
     photo_url = ar_photo_url ex_record,
     ma_latitude = Some (3139 / 1000), ma_longitude = Some (1016869 / 10000),
     ma_accuracy = Some 15, ma_address = Some ''Kuala Lumpur'',
     check_in_time = Some ''2025-01-02T00:30:00.000Z'' \<rparr>
     \<in> set (members (fetchMembers False False ex_db_marked (Some ''2025-01-02'') True ex_roster))"
    by (simp add: ex_member_def ex_record_def truthy_id_def truthy_num_def truthy_str_def)
  from b c n have "\<lparr> member_id = cm_id ex_member, name = cm_name ex_member,
                 department = cm_department ex_member,
                 attendance_id = None, attendance_date = ''2025-01-03'', status = Absent,
                 photo_url = None, ma_latitude = None, ma_longitude = None, ma_accuracy = None,
                 ma_address = None, check_in_time = None \<rparr>
     \<in> set (members (fetchMembers False False ex_db_marked (Some ''2025-01-03'') True ex_roster))"
    by blast
  then have e2: "ex_entry None Absent None \<lparr> attendance_date := ''2025-01-03'' \<rparr>
     \<in> set (members (fetchMembers False False ex_db_marked (Some ''2025-01-03'') True ex_roster))"
    by (simp add: ex_member_def ex_entry_def)
  from a have l: "length (members (fetchMembers False False ex_db_marked (Some ''2025-01-02'') True ex_roster)) = 1"
    by (simp add: ex_db_marked_def ex_db_def)
  from h1 h2 h3 c r k n l e1 e2 show ?thesis by blast
qed

lemma status_count:
  "length (filter (\<lambda>m. status m = Absent) ms) = length ms - length (filter (\<lambda>m. status m = Attend) ms)"
proof -
  have "filter (\<lambda>m. status m = Absent) ms = filter (\<lambda>m. \<not> status m = Attend) ms"
    by (rule filter_cong [OF refl]) (metis AttendanceStatus.exhaust AttendanceStatus.distinct(1))
  then have "length (filter (\<lambda>m. status m = Absent) ms) = length (filter (\<lambda>m. \<not> status m = Attend) ms)"
    by (rule arg_cong)
  moreover have "length (filter (\<lambda>m. status m = Attend) ms) +
                 length (filter (\<lambda>m. \<not> status m = Attend) ms) = length ms"
    by (rule sum_length_filter_compl)
  ultimately show ?thesis by linarith
qed

lemma status_combine:
  "status (combine_member amap d cm) = Attend \<longleftrightarrow> (\<exists>r. amap (cm_id cm) = Some r \<and> ar_status r = Attend)"
  by (cases "amap (cm_id cm)") (simp_all add: combine_member_def Let_def)

lemma attend_count_combined:
  assumes "distinct (map attendance_key (attendance db))"
  shows "length (filter (\<lambda>m. status m = Attend) (combined db d)) =
         length (filter (marked_attend db d) (committee_members db))"
proof -
  let ?amap = "attendanceMap (select_attendance db d)"
  have q: "status (combine_member ?amap d cm) = Attend \<longleftrightarrow> marked_attend db d cm" for cm
    unfolding status_combine marked_attend_def using assms by (auto simp: record_lookup_Some)
  have "filter (\<lambda>m. status m = Attend) (combined db d) =
        map (combine_member ?amap d) (filter (marked_attend db d) (sort_key cm_id (committee_members db)))"
    by (simp add: combined_def select_committee_members_def filter_map comp_def q)
  then show ?thesis by (simp add: filter_sort)
qed

lemma rate_12_9: "attendanceRate \<lparr> total = 12, attend = 9, absent = 3 \<rparr> = 75"
  by (simp add: attendanceRate_def number_def number_div_def number_mul_def to_double_def
      Math_round_def ilog2_def round_half_even_def Let_def)

lemma rate_40_23: "attendanceRate \<lparr> total = 40, attend = 23, absent = 17 \<rparr> = 57"
  by (simp add: attendanceRate_def number_def number_div_def number_mul_def to_double_def
      Math_round_def ilog2_def round_half_even_def Let_def)

lemma rate_8_1: "attendanceRate \<lparr> total = 8, attend = 1, absent = 7 \<rparr> = 13"
  by (simp add: attendanceRate_def number_def number_div_def number_mul_def to_double_def
      Math_round_def ilog2_def round_half_even_def Let_def)

lemma ex_day_keys: "distinct (map attendance_key (attendance (ex_db_day n k)))"
proof -
  have "map attendance_key (attendance (ex_db_day n k)) = map (\<lambda>i. (i, ''2025-01-02'')) [1..<Suc k]"
    by (simp add: ex_db_day_def ex_attended_def attendance_key_def ex_record_def)
  moreover have "distinct (map (\<lambda>i. (i, ''2025-01-02'')) [1..<Suc k])"
    by (simp add: distinct_map inj_on_def)
  ultimately show ?thesis by simp
qed

lemma count_upto:
  assumes "k \<le> n"
  shows "length (filter (\<lambda>i. 1 \<le> i \<and> i \<le> k) [1..<Suc n]) = k"
proof -
  from assms obtain j where n: "n = k + j" by (auto simp: le_iff_add)
  have "[1..<Suc k + j] = [1..<Suc k] @ [Suc k..<Suc k + j]"
    by (rule upt_add_eq_append) simp
  with n have "[1..<Suc n] = [1..<Suc k] @ [Suc k..<Suc n]" by simp
  moreover have "filter (\<lambda>i. 1 \<le> i \<and> i \<le> k) [1..<Suc k] = [1..<Suc k]"
    by (rule filter_True) auto
  moreover have "filter (\<lambda>i. 1 \<le> i \<and> i \<le> k) [Suc k..<Suc n] = []"
    by (rule filter_False) auto
  ultimately have "filter (\<lambda>i. 1 \<le> i \<and> i \<le> k) [1..<Suc n] = [1..<Suc k]"
    by (simp only: filter_append append_Nil2)
  then show ?thesis by (simp only: length_upt diff_Suc_1)
qed

lemma ex_day_counts:
  assumes "k \<le> n"
  shows "length (committee_members (ex_db_day n k)) = n"
    and "length (filter (marked_attend (ex_db_day n k) ''2025-01-02'') (committee_members (ex_db_day n k))) = k"
proof -
  define mk where "mk = (\<lambda>i. \<lparr> cm_id = i, cm_name = ''Member '' @ toString i,
                              cm_department = executive, cm_created_at = ''2025-01-01T00:00:00Z'' \<rparr>)"
  have cms: "committee_members (ex_db_day n k) = map mk [1..<Suc n]"
    by (simp add: ex_db_day_def ex_members_def mk_def del: upt_Suc)
  show "length (committee_members (ex_db_day n k)) = n"
    unfolding cms by (simp del: upt_Suc)
  have "attendance_key ` set (attendance (ex_db_day n k)) = (\<lambda>i. (i, ''2025-01-02'')) ` {1..k}"
    by (auto simp: ex_db_day_def ex_attended_def attendance_key_def ex_record_def image_iff simp del: upt_Suc)
  have m: "marked_attend (ex_db_day n k) ''2025-01-02'' (mk i) \<longleftrightarrow> 1 \<le> i \<and> i \<le> k" for i
    by (auto simp: marked_attend_def ex_db_day_def ex_attended_def attendance_key_def ex_record_def
        mk_def simp del: upt_Suc)
  have "length (filter (marked_attend (ex_db_day n k) ''2025-01-02'') (map mk [1..<Suc n])) =
        length (filter (\<lambda>i. 1 \<le> i \<and> i \<le> k) [1..<Suc n])"
    by (simp only: length_filter_map comp_def m)
  with assms show "length (filter (marked_attend (ex_db_day n k) ''2025-01-02'') (committee_members (ex_db_day n k))) = k"
    unfolding cms by (simp only: count_upto)
qed


lemma stats_fetched:
  assumes "distinct (map attendance_key (attendance db))" and "d \<noteq> []"
  shows "attendance_stats (fetchMembers False False db (Some d) showLoading st) =
           \<lparr> total = length (committee_members db),
             attend = length (filter (marked_attend db d) (committee_members db)),
             absent = length (committee_members db)
                      - length (filter (marked_attend db d) (committee_members db)) \<rparr>"
proof -
  have ms: "members (fetchMembers False False db (Some d) showLoading st) = combined db d"
    using assms(2) by (rule fetchMembers_members)
  have len: "length (combined db d) = length (committee_members db)"
    by (simp add: combined_def select_committee_members_def)
  show ?thesis
    by (simp add: attendance_stats_def ms status_count len attend_count_combined [OF assms(1)])
qed

lemma rate_depends_on_counts:
  "attendanceRate s = attendanceRate \<lparr> total = total s, attend = attend s, absent = a \<rparr>"
  by (simp add: attendanceRate_def)

text \<open>
  Claim C6, as the code has it. For the roster a successful \<open>fetchMembers\<close> builds
  from a store with at most one record per member and date: \<open>total\<close> is the number of
  committee members, \<open>attend\<close> is the number of entries with status \<open>attend\<close>, which is
  the number of members whose record for the date says \<open>attend\<close>, and \<open>absent\<close> is
  \<open>total - attend\<close>. The rate is 0 when \<open>total\<close> is 0 and otherwise \<open>Math.round\<close> of
  the double-precision value of \<open>(attend / total) * 100\<close>, quotient and product each
  rounded to the nearest double. With 12 members of whom 9 are marked attend the
  statistics are 12, 9 and 3 and the rate is 75.
\<close>

theorem attendance_stats_of_roster:
  assumes "distinct (map attendance_key (attendance db))" and "d \<noteq> []"
  shows "total (attendance_stats (fetchMembers False False db (Some d) showLoading st)) =
           length (committee_members db) \<and>
         attend (attendance_stats (fetchMembers False False db (Some d) showLoading st)) =
           length (filter (\<lambda>m. status m = Attend)
                     (members (fetchMembers False False db (Some d) showLoading st))) \<and>
         attend (attendance_stats (fetchMembers False False db (Some d) showLoading st)) =
           length (filter (marked_attend db d) (committee_members db)) \<and>
         absent (attendance_stats (fetchMembers False False db (Some d) showLoading st)) =
           total (attendance_stats (fetchMembers False False db (Some d) showLoading st))
           - attend (attendance_stats (fetchMembers False False db (Some d) showLoading st)) \<and>
         attendanceRate (attendance_stats (fetchMembers False False db (Some d) showLoading st)) =
           (if total (attendance_stats (fetchMembers False False db (Some d) showLoading st)) = 0
            then 0
            else Math_round
                   (number_mul
                      (number_div
                         (number (attend (attendance_stats
                                     (fetchMembers False False db (Some d) showLoading st))))
                         (number (total (attendance_stats
                                     (fetchMembers False False db (Some d) showLoading st)))))
                      (number 100))) \<and>
         (total (attendance_stats (fetchMembers False False db (Some d) showLoading st)) = 12 \<and>
          attend (attendance_stats (fetchMembers False False db (Some d) showLoading st)) = 9 \<longrightarrow>
            attendance_stats (fetchMembers False False db (Some d) showLoading st) =
              \<lparr> total = 12, attend = 9, absent = 3 \<rparr> \<and>
            attendanceRate (attendance_stats (fetchMembers False False db (Some d) showLoading st)) = 75)"
proof -
  let ?S = "attendance_stats (fetchMembers False False db (Some d) showLoading st)"
  note s = stats_fetched [OF assms, of showLoading st]
  have t: "total ?S = length (committee_members db)"
    and a: "attend ?S = length (filter (marked_attend db d) (committee_members db))"
    and b: "absent ?S = total ?S - attend ?S"
    by (simp_all add: s)
  have a': "attend ?S = length (filter (\<lambda>m. status m = Attend)
                     (members (fetchMembers False False db (Some d) showLoading st)))"
    by (simp add: attendance_stats_def)
  have r: "attendanceRate ?S =
           (if total ?S = 0 then 0
            else Math_round (number_mul (number_div (number (attend ?S)) (number (total ?S))) (number 100)))"
    by (simp add: attendanceRate_def)
  have e: "?S = \<lparr> total = 12, attend = 9, absent = 3 \<rparr> \<and> attendanceRate ?S = 75"
    if "total ?S = 12 \<and> attend ?S = 9"
  proof -
    from that b have "?S = \<lparr> total = 12, attend = 9, absent = 3 \<rparr>" by (cases ?S) simp
    then show ?thesis by (simp add: rate_12_9)
  qed
  from t a a' b r e show ?thesis by blast
qed

theorem attendance_stats_of_roster_witness:
  "distinct (map attendance_key (attendance (ex_db_day 12 9))) \<and> ''2025-01-02'' \<noteq> [] \<and>
   attendance_stats (fetchMembers False False (ex_db_day 12 9) (Some ''2025-01-02'') True ex_roster) =
     \<lparr> total = 12, attend = 9, absent = 3 \<rparr> \<and>
   attendanceRate
     (attendance_stats (fetchMembers False False (ex_db_day 12 9) (Some ''2025-01-02'') True ex_roster)) = 75"
proof -
  have d: "''2025-01-02'' \<noteq> []" by simp
  have c: "length (committee_members (ex_db_day 12 9)) = 12"
      "length (filter (marked_attend (ex_db_day 12 9) ''2025-01-02'') (committee_members (ex_db_day 12 9))) = 9"
    by (rule ex_day_counts, simp)+
  let ?S = "attendance_stats (fetchMembers False False (ex_db_day 12 9) (Some ''2025-01-02'') True ex_roster)"
  note T = attendance_stats_of_roster [OF ex_day_keys d, of 12 9 True ex_roster]
  from T c have "total ?S = 12" "attend ?S = 9" by simp_all
  with T have "?S = \<lparr> total = 12, attend = 9, absent = 3 \<rparr> \<and> attendanceRate ?S = 75" by blast
  with ex_day_keys d show ?thesis by blast
qed

text \<open>
  Claim C6 as stated does not hold in exact arithmetic. With 40 committee members of
  whom 23 are marked attend, \<open>23 / 40\<close> is rounded to a double below 0.575 and its
  product with 100 to the double 57.49999999999999, which \<open>Math.round\<close> takes to 57;
  the exact percentage is 57.5, which rounds to 58.
\<close>

theorem attendanceRate_counterexample:
  "attendance_stats (fetchMembers False False (ex_db_day 40 23) (Some ''2025-01-02'') True ex_roster) =
     \<lparr> total = 40, attend = 23, absent = 17 \<rparr> \<and>
   attendanceRate
     (attendance_stats (fetchMembers False False (ex_db_day 40 23) (Some ''2025-01-02'') True ex_roster)) = 57 \<and>
   round ((23 :: real) / 40 * 100) = 58"
proof -
  have c: "length (committee_members (ex_db_day 40 23)) = 40"
      "length (filter (marked_attend (ex_db_day 40 23) ''2025-01-02'') (committee_members (ex_db_day 40 23))) = 23"
    by (rule ex_day_counts, simp)+
  have "attendance_stats (fetchMembers False False (ex_db_day 40 23) (Some ''2025-01-02'') True ex_roster) =
     \<lparr> total = 40, attend = 23, absent = 17 \<rparr>"
    using stats_fetched [OF ex_day_keys, of "''2025-01-02''" 40 23 True ex_roster] c by simp
  moreover have "round ((23 :: real) / 40 * 100) = 58" by (simp add: round_def)
  ultimately show ?thesis by (simp add: rate_40_23)
qed

lemma sum_capacity:
  "list_all (\<lambda>x. f x \<le> c) xs \<Longrightarrow> sum_list (map f xs) \<le> c * length xs"
  by (induction xs) auto

lemma sum_below_capacity:
  "list_all (\<lambda>x. f x \<le> c) xs \<Longrightarrow> x \<in> set xs \<Longrightarrow> f x < c \<Longrightarrow> sum_list (map f xs) < c * length xs"
proof (induction xs)
  case Nil then show ?case by simp
next
  case (Cons a xs)
  show ?case
  proof (cases "x = a")
    case True
    with Cons.prems have "f a < c" "sum_list (map f xs) \<le> c * length xs"
      by (simp_all add: sum_capacity)
    then show ?thesis by simp
  next
    case False
    with Cons have "sum_list (map f xs) < c * length xs" "f a \<le> c" by simp_all
    then show ?thesis by simp
  qed
qed

lemma all_at_capacity:
  "list_all (\<lambda>x. f x \<le> c) xs \<Longrightarrow> filter (\<lambda>x. f x < c) xs = [] \<Longrightarrow>
   sum_list (map f xs) = c * length xs"
proof (induction xs)
  case Nil then show ?case by simp
next
  case (Cons a xs)
  from Cons.prems(2) have "\<not> f a < c" "filter (\<lambda>x. f x < c) xs = []"
    by (simp_all split: if_splits)
  moreover from Cons.prems(1) have "f a \<le> c" "list_all (\<lambda>x. f x \<le> c) xs" by simp_all
  ultimately show ?case using Cons.IH by simp
qed

lemma below_capacity:
  "list_all (\<lambda>x. f x \<le> c) xs \<Longrightarrow> filter (\<lambda>x. f x < c) xs \<noteq> [] \<Longrightarrow>
   sum_list (map f xs) < c * length xs"
proof -
  assume a: "list_all (\<lambda>x. f x \<le> c) xs" and "filter (\<lambda>x. f x < c) xs \<noteq> []"
  then obtain x where "x \<in> set xs" "f x < c" by (auto simp: filter_empty_conv)
  with a show ?thesis by (rule sum_below_capacity)
qed

lemma available_iff_room:
  assumes "list_all (\<lambda>t. length (team_members t) \<le> MAX_MEMBERS_PER_TEAM) (teams st)"
  shows "availableTeams st = [] \<longleftrightarrow> total_members (teams st) = MAX_MEMBERS_PER_TEAM * length (teams st)"
proof
  assume "availableTeams st = []"
  with assms show "total_members (teams st) = MAX_MEMBERS_PER_TEAM * length (teams st)"
    unfolding availableTeams_def total_members_def by (rule all_at_capacity)
next
  assume eq: "total_members (teams st) = MAX_MEMBERS_PER_TEAM * length (teams st)"
  show "availableTeams st = []"
  proof (rule ccontr)
    assume "availableTeams st \<noteq> []"
    with assms have "total_members (teams st) < MAX_MEMBERS_PER_TEAM * length (teams st)"
      unfolding availableTeams_def total_members_def by (rule below_capacity)
    with eq show False by simp
  qed
qed

lemma map_upd_absent:
  "a \<notin> g ` set xs \<Longrightarrow> map (\<lambda>x. if g x = a then h x else x) xs = xs"
  by (induction xs) auto

lemma add_to_team_ids [simp]: "map team_id (add_to_team tid p ts) = map team_id ts"
  by (induction ts) (simp_all add: add_to_team_def)

lemma add_to_team_length [simp]: "length (add_to_team tid p ts) = length ts"
  by (simp add: add_to_team_def)

lemma add_to_team_total:
  "distinct (map team_id ts) \<Longrightarrow> tid \<in> set (map team_id ts) \<Longrightarrow>
   total_members (add_to_team tid p ts) = Suc (total_members ts)"
proof (induction ts)
  case Nil then show ?case by simp
next
  case (Cons t ts)
  show ?case
  proof (cases "team_id t = tid")
    case True
    with Cons.prems have "tid \<notin> set (map team_id ts)" by auto
    then have "tid \<notin> team_id ` set ts" by simp
    then have "add_to_team tid p ts = ts"
      unfolding add_to_team_def by (rule map_upd_absent)
    with True show ?thesis by (simp add: total_members_def add_to_team_def)
  next
    case False
    with Cons show ?thesis by (simp add: total_members_def add_to_team_def)
  qed
qed

lemma add_to_team_capacity:
  assumes "list_all (\<lambda>t. length (team_members t) \<le> c) ts"
    and "\<forall>t \<in> set ts. team_id t = tid \<longrightarrow> length (team_members t) < c"
  shows "list_all (\<lambda>t. length (team_members t) \<le> c) (add_to_team tid p ts)"
  using assms by (induction ts) (auto simp: add_to_team_def)


text \<open>What a registration that goes through has done.\<close>

lemma registration_result:
  assumes nm: "trim (newParticipantName st) \<noteq> []" and idle: "\<not> isAddingParticipant st"
    and r: "handleAddParticipant env usr db st = (None, st', db')"
  shows "(availableTeams st \<noteq> [] \<and> random_index env < length (availableTeams st) \<and>
          groups db' = groups db \<and>
          (\<exists>p. participants db' = participants db @ [p] \<and>
               p_group_id p = Some (team_id (availableTeams st ! random_index env)) \<and>
               teams st' = add_to_team (team_id (availableTeams st ! random_index env))
                             (local_participant p) (teams st))) \<or>
         (availableTeams st = [] \<and>
          (\<exists>g p. groups db' = groups db @ [g] \<and>
                 g_name g = ''Team '' @ toString (length (teams st) + 1) \<and>
                 participants db' = participants db @ [p] \<and>
                 p_group_id p = Some (g_id g) \<and>
                 teams st' = add_to_team (g_id g) (local_participant p)
                               (teams st @ [\<lparr> team_id = g_id g, team_name = g_name g, team_members = [] \<rparr>])))"
  using r
proof (cases rule: handleAddParticipant_cases)
  case ignored with nm idle show ?thesis by simp
next
  case (assign_failed e) then show ?thesis by simp
next
  case (insert_failed tid tname st1 e) then show ?thesis by simp
next
  case (registered tid tname st1 db1 p)
  note ins = insert_participant_Inr [OF registered(4)]
  have gid: "p_group_id p = Some tid" by (subst ins(1)) simp
  from registered(3) show ?thesis
  proof (cases rule: assign_team_cases)
    case (group_failed e) then show ?thesis by simp
  next
    case undefined_team then show ?thesis by simp
  next
    case drawn
    then have "tid = team_id (availableTeams st ! random_index env)" "st1 = st" "db1 = db" by simp_all
    moreover have "participants db' = participants db1 @ [p]" "groups db' = groups db1"
      by (subst ins(2), simp)+
    ultimately show ?thesis using drawn(1,2) gid registered(6) by simp
  next
    case (created g db2)
    note gi = insert_group_Inr [OF created(2)]
    from created(3) have e: "tid = g_id g" "db1 = db2"
      "st1 = st \<lparr> teams := teams st @ [\<lparr> team_id = g_id g, team_name = g_name g, team_members = [] \<rparr>] \<rparr>"
      by simp_all
    have "groups db2 = groups db @ [g]" "participants db2 = participants db"
      by (subst gi(2), simp)+
    moreover have "participants db' = participants db1 @ [p]" "groups db' = groups db1"
      by (subst ins(2), simp)+
    moreover have "g_name g = ''Team '' @ toString (length (teams st) + 1)"
      by (subst gi(1)) simp
    ultimately show ?thesis using created(1) gid registered(6) e by auto
  qed
qed

lemma nth_available:
  "i < length (availableTeams st) \<Longrightarrow>
   availableTeams st ! i \<in> set (teams st) \<and>
   length (team_members (availableTeams st ! i)) < MAX_MEMBERS_PER_TEAM"
  using nth_mem [of i "availableTeams st"] by (simp add: availableTeams_def)

lemma registered_step:
  assumes ok: "teams_ok k st" and room: "availableTeams st \<noteq> []"
    and nm: "trim nm \<noteq> []"
    and r: "handleAddParticipant env usr db (st \<lparr> newParticipantName := nm \<rparr>) = (None, st', db')"
  shows "teams_ok (Suc k) st' \<and> length (teams st') = length (teams st) \<and> groups db' = groups db \<and>
         length (participants db') = Suc (length (participants db))"
proof -
  let ?st = "st \<lparr> newParticipantName := nm \<rparr>"
  let ?t = "availableTeams st ! random_index env"
  have av: "availableTeams ?st = availableTeams st" by (simp add: availableTeams_def)
  from ok have idle: "\<not> isAddingParticipant ?st" by (simp add: teams_ok_def)
  from nm have nm': "trim (newParticipantName ?st) \<noteq> []" by simp
  from registration_result [OF nm' idle r] room av obtain p where
      i: "random_index env < length (availableTeams st)"
      and g: "groups db' = groups db"
      and p: "participants db' = participants db @ [p]"
      and t: "teams st' = add_to_team (team_id ?t) (local_participant p) (teams st)"
    by auto
  from i have m: "?t \<in> set (teams st)" "length (team_members ?t) < MAX_MEMBERS_PER_TEAM"
    by (simp_all add: nth_available)
  from ok have d: "distinct (map team_id (teams st))"
    and c: "list_all (\<lambda>t. length (team_members t) \<le> MAX_MEMBERS_PER_TEAM) (teams st)"
    and k: "total_members (teams st) = k"
    by (simp_all add: teams_ok_def)
  have only: "\<forall>x \<in> set (teams st). team_id x = team_id ?t \<longrightarrow> length (team_members x) < MAX_MEMBERS_PER_TEAM"
    using d m by (metis distinct_key_eq)
  have "team_id ?t \<in> set (map team_id (teams st))" using m(1) by simp
  with d have "total_members (teams st') = Suc (total_members (teams st))"
    unfolding t by (rule add_to_team_total)
  moreover have "list_all (\<lambda>t. length (team_members t) \<le> MAX_MEMBERS_PER_TEAM) (teams st')"
    unfolding t using c only by (rule add_to_team_capacity)
  moreover have "distinct (map team_id (teams st'))" unfolding t using d by simp
  moreover have "\<not> isAddingParticipant st'"
    using r nm idle by (cases rule: handleAddParticipant_cases) simp_all
  ultimately have "teams_ok (Suc k) st'" using k by (simp add: teams_ok_def)
  moreover have "length (teams st') = length (teams st)" unfolding t by simp
  ultimately show ?thesis using g p by simp
qed

lemma register_run:
  assumes "teams_ok k st" and "k + length xs \<le> MAX_MEMBERS_PER_TEAM * length (teams st)"
    and "list_all (\<lambda>(env, nm). trim nm \<noteq> []) xs"
    and "register_all xs usr st db = (replicate (length xs) None, st', db')"
  shows "teams_ok (k + length xs) st' \<and> length (teams st') = length (teams st) \<and>
         groups db' = groups db \<and>
         length (participants db') = length (participants db) + length xs"
  using assms
proof (induction xs arbitrary: k st db)
  case Nil
  then show ?case by simp
next
  case (Cons x xs)
  obtain env nm where x: "x = (env, nm)" by (cases x)
  obtain res st1 db1 where h: "handleAddParticipant env usr db (st \<lparr> newParticipantName := nm \<rparr>) = (res, st1, db1)"
    by (cases "handleAddParticipant env usr db (st \<lparr> newParticipantName := nm \<rparr>)")
  obtain rs st2 db2 where t: "register_all xs usr st1 db1 = (rs, st2, db2)"
    by (cases "register_all xs usr st1 db1")
  from Cons.prems(4) x h t have res: "res = None" and rs: "rs = replicate (length xs) None"
    and e: "st2 = st'" "db2 = db'"
    by simp_all
  from Cons.prems(1) have cap: "list_all (\<lambda>t. length (team_members t) \<le> MAX_MEMBERS_PER_TEAM) (teams st)"
    and tot: "total_members (teams st) = k"
    by (simp_all add: teams_ok_def)
  from Cons.prems(2) tot have "total_members (teams st) \<noteq> MAX_MEMBERS_PER_TEAM * length (teams st)"
    by simp
  with cap have room: "availableTeams st \<noteq> []" by (simp add: available_iff_room)
  from Cons.prems(3) x have nm: "trim nm \<noteq> []" and rest: "list_all (\<lambda>(env, nm). trim nm \<noteq> []) xs"
    by simp_all
  from h res have h': "handleAddParticipant env usr db (st \<lparr> newParticipantName := nm \<rparr>) = (None, st1, db1)"
    by simp
  note s = registered_step [OF Cons.prems(1) room nm h']
  from s have ok1: "teams_ok (Suc k) st1" and len1: "length (teams st1) = length (teams st)"
    and g1: "groups db1 = groups db" and p1: "length (participants db1) = Suc (length (participants db))"
    by simp_all
  from Cons.prems(2) len1 have b: "Suc k + length xs \<le> MAX_MEMBERS_PER_TEAM * length (teams st1)" by simp
  from t rs e have t': "register_all xs usr st1 db1 = (replicate (length xs) None, st', db')" by simp
  from Cons.IH [OF ok1 b rest t'] len1 g1 p1 show ?case by simp
qed

lemma toString_9: "toString (8 + 1) = ''9''"
  by (simp add: toString_def digit_char_def)

text \<open>
  Claim C4. A registration that goes through (a name was typed, no registration is in
  progress, nothing is thrown) inserts one participant. When at least one team of the
  page has fewer than 5 members, the participant's group is one of those teams, the one
  the random index selects, and no group is created; otherwise the group
  ``Team n+1'', \<open>n\<close> the number of teams, is inserted first and the participant is
  assigned to it. Starting from 8 teams without members, 40 registrations that go
  through create no group and fill the 8 teams, and the 41st creates the group
  ``Team 9'' and assigns its participant to it.
\<close>

theorem registration_assigns_or_creates:
  "(trim (newParticipantName st) \<noteq> [] \<and> \<not> isAddingParticipant st \<and>
    handleAddParticipant env usr db st = (None, st', db') \<longrightarrow>
      (availableTeams st \<noteq> [] \<and>
       groups db' = groups db \<and>
       (\<exists>p t. participants db' = participants db @ [p] \<and>
              t \<in> set (teams st) \<and> length (team_members t) < MAX_MEMBERS_PER_TEAM \<and>
              p_group_id p = Some (team_id t))) \<or>
      (availableTeams st = [] \<and>
       (\<exists>g p. groups db' = groups db @ [g] \<and>
              g_name g = ''Team '' @ toString (length (teams st) + 1) \<and>
              participants db' = participants db @ [p] \<and>
              p_group_id p = Some (g_id g)))) \<and>
   (map team_members (teams sta) = replicate DEFAULT_TEAMS [] \<and>
    distinct (map team_id (teams sta)) \<and> \<not> isAddingParticipant sta \<and>
    length xs = 40 \<and> list_all (\<lambda>(env, nm). trim nm \<noteq> []) xs \<and>
    register_all xs usr sta dba = (replicate 40 None, stb, dbb) \<and>
    trim nm \<noteq> [] \<and>
    handleAddParticipant envc usr dbb (stb \<lparr> newParticipantName := nm \<rparr>) = (None, stc, dbc) \<longrightarrow>
      groups dbb = groups dba \<and>
      length (participants dbb) = length (participants dba) + 40 \<and>
      length (teams stb) = 8 \<and>
      (\<exists>g p. groups dbc = groups dbb @ [g] \<and> g_name g = ''Team 9'' \<and>
             participants dbc = participants dbb @ [p] \<and> p_group_id p = Some (g_id g)))"
proof (rule conjI; rule impI)
  assume a: "trim (newParticipantName st) \<noteq> [] \<and> \<not> isAddingParticipant st \<and>
    handleAddParticipant env usr db st = (None, st', db')"
  then have nm: "trim (newParticipantName st) \<noteq> []" and idle: "\<not> isAddingParticipant st"
    and r: "handleAddParticipant env usr db st = (None, st', db')"
    by simp_all
  from registration_result [OF nm idle r]
  show "(availableTeams st \<noteq> [] \<and>
       groups db' = groups db \<and>
       (\<exists>p t. participants db' = participants db @ [p] \<and>
              t \<in> set (teams st) \<and> length (team_members t) < MAX_MEMBERS_PER_TEAM \<and>
              p_group_id p = Some (team_id t))) \<or>
      (availableTeams st = [] \<and>
       (\<exists>g p. groups db' = groups db @ [g] \<and>
              g_name g = ''Team '' @ toString (length (teams st) + 1) \<and>
              participants db' = participants db @ [p] \<and>
              p_group_id p = Some (g_id g)))"
  proof (elim disjE conjE exE)
    fix p
    assume "availableTeams st \<noteq> []" "random_index env < length (availableTeams st)"
      "groups db' = groups db" "participants db' = participants db @ [p]"
      "p_group_id p = Some (team_id (availableTeams st ! random_index env))"
    then show ?thesis using nth_available [of "random_index env" st] by blast
  next
    fix g p
    assume "availableTeams st = []" "groups db' = groups db @ [g]"
      "g_name g = ''Team '' @ toString (length (teams st) + 1)"
      "participants db' = participants db @ [p]" "p_group_id p = Some (g_id g)"
    then show ?thesis by blast
  qed
next
  assume a: "map team_members (teams sta) = replicate DEFAULT_TEAMS [] \<and>
    distinct (map team_id (teams sta)) \<and> \<not> isAddingParticipant sta \<and>
    length xs = 40 \<and> list_all (\<lambda>(env, nm). trim nm \<noteq> []) xs \<and>
    register_all xs usr sta dba = (replicate 40 None, stb, dbb) \<and>
    trim nm \<noteq> [] \<and>
    handleAddParticipant envc usr dbb (stb \<lparr> newParticipantName := nm \<rparr>) = (None, stc, dbc)"
  then have empty: "map team_members (teams sta) = replicate DEFAULT_TEAMS []" by simp
  then have "length (map team_members (teams sta)) = DEFAULT_TEAMS" by simp
  then have len: "length (teams sta) = 8" by (simp add: DEFAULT_TEAMS_def)
  have "map (\<lambda>t. length (team_members t)) (teams sta) = map length (map team_members (teams sta))"
    by simp
  also have "\<dots> = replicate DEFAULT_TEAMS 0" unfolding empty by simp
  finally have lens: "map (\<lambda>t. length (team_members t)) (teams sta) = replicate DEFAULT_TEAMS 0" .
  then have tot: "total_members (teams sta) = 0" by (simp add: total_members_def)
  have "\<forall>n \<in> set (map (\<lambda>t. length (team_members t)) (teams sta)). n \<le> MAX_MEMBERS_PER_TEAM"
    unfolding lens by simp
  then have cap: "list_all (\<lambda>t. length (team_members t) \<le> MAX_MEMBERS_PER_TEAM) (teams sta)"
    by (simp add: list_all_iff)
  from a tot cap have ok: "teams_ok 0 sta" by (simp add: teams_ok_def)
  from a len have b: "0 + length xs \<le> MAX_MEMBERS_PER_TEAM * length (teams sta)"
    by (simp add: MAX_MEMBERS_PER_TEAM_def)
  from a have names: "list_all (\<lambda>(env, nm). trim nm \<noteq> []) xs"
    and run: "register_all xs usr sta dba = (replicate (length xs) None, stb, dbb)"
    by simp_all
  note f = register_run [OF ok b names run]
  from f a len have okb: "teams_ok 40 stb" and lenb: "length (teams stb) = 8"
    and gb: "groups dbb = groups dba"
    and pb: "length (participants dbb) = length (participants dba) + 40"
    by simp_all
  from okb have "list_all (\<lambda>t. length (team_members t) \<le> MAX_MEMBERS_PER_TEAM) (teams stb)"
    "total_members (teams stb) = MAX_MEMBERS_PER_TEAM * length (teams stb)"
    by (simp_all add: teams_ok_def lenb MAX_MEMBERS_PER_TEAM_def)
  then have full: "availableTeams stb = []" by (simp add: available_iff_room)
  let ?st = "stb \<lparr> newParticipantName := nm \<rparr>"
  have full': "availableTeams ?st = []" using full by (simp add: availableTeams_def)
  from a okb have nm: "trim (newParticipantName ?st) \<noteq> []" and idle: "\<not> isAddingParticipant ?st"
    and r: "handleAddParticipant envc usr dbb ?st = (None, stc, dbc)"
    by (simp_all add: teams_ok_def)
  from registration_result [OF nm idle r] full' obtain g p where
      "groups dbc = groups dbb @ [g]" "g_name g = ''Team '' @ toString (length (teams ?st) + 1)"
      "participants dbc = participants dbb @ [p]" "p_group_id p = Some (g_id g)"
    by auto
  moreover have "''Team '' @ toString (length (teams ?st) + 1) = ''Team 9''"
    using toString_9 by (simp add: lenb)
  ultimately have "\<exists>g p. groups dbc = groups dbb @ [g] \<and> g_name g = ''Team 9'' \<and>
             participants dbc = participants dbb @ [p] \<and> p_group_id p = Some (g_id g)"
    by auto
  with gb pb lenb show "groups dbb = groups dba \<and>
      length (participants dbb) = length (participants dba) + 40 \<and>
      length (teams stb) = 8 \<and>
      (\<exists>g p. groups dbc = groups dbb @ [g] \<and> g_name g = ''Team 9'' \<and>
             participants dbc = participants dbb @ [p] \<and> p_group_id p = Some (g_id g))"
    by simp
qed

lemma empty_teams_ok:
  assumes "map team_members (teams st) = replicate n []"
    and "distinct (map team_id (teams st))" and "\<not> isAddingParticipant st"
  shows "teams_ok 0 st" and "length (teams st) = n"
proof -
  from assms(1) have "length (map team_members (teams st)) = n" by simp
  then show "length (teams st) = n" by simp
  have "map (\<lambda>t. length (team_members t)) (teams st) = map length (map team_members (teams st))"
    by simp
  also have "\<dots> = replicate n 0" unfolding assms(1) by simp
  finally have lens: "map (\<lambda>t. length (team_members t)) (teams st) = replicate n 0" .
  then have tot: "total_members (teams st) = 0" by (simp add: total_members_def)
  have "\<forall>m \<in> set (map (\<lambda>t. length (team_members t)) (teams st)). m \<le> MAX_MEMBERS_PER_TEAM"
    unfolding lens by simp
  then have "list_all (\<lambda>t. length (team_members t) \<le> MAX_MEMBERS_PER_TEAM) (teams st)"
    by (simp add: list_all_iff)
  with assms tot show "teams_ok 0 st" by (simp add: teams_ok_def)
qed

text \<open>When the requests are not refused, a registration goes through.\<close>

lemma registration_succeeds_drawn:
  assumes "\<not> participant_insert_fails env" and "random_index env < length (availableTeams st)"
    and "trim nm \<noteq> []" and "length (trim nm) \<le> 100" and "\<not> isAddingParticipant st"
    and "set (map team_id (teams st)) \<subseteq> set (map g_id (groups db))"
  shows "fst (handleAddParticipant env None db (st \<lparr> newParticipantName := nm \<rparr>)) = None"
proof -
  let ?st = "st \<lparr> newParticipantName := nm \<rparr>"
  let ?t = "availableTeams st ! random_index env"
  have av: "availableTeams ?st = availableTeams st" by (simp add: availableTeams_def)
  from assms(2) have ne: "availableTeams st \<noteq> []" by auto
  have a: "assign_team env db ?st = Inr (team_id ?t, team_name ?t, ?st, db)"
    using assms(2) ne by (simp add: assign_team_def av Let_def)
  from assms(2) have "?t \<in> set (teams st)" by (simp add: nth_available)
  then have "team_id ?t \<in> set (map team_id (teams st))" by simp
  with assms(6) have fk: "team_id ?t \<in> set (map g_id (groups db))" by blast
  show ?thesis
    using assms(1,3,4,5) fk
    by (simp add: handleAddParticipant_def a insert_participant_def Let_def)
qed

lemma registration_succeeds_created:
  assumes "availableTeams st = []" and "\<not> group_insert_fails env" and "\<not> participant_insert_fails env"
    and "trim nm \<noteq> []" and "length (trim nm) \<le> 100" and "\<not> isAddingParticipant st"
    and "length (toString (length (teams st) + 1)) \<le> 45"
  shows "fst (handleAddParticipant env None db (st \<lparr> newParticipantName := nm \<rparr>)) = None"
proof -
  let ?st = "st \<lparr> newParticipantName := nm \<rparr>"
  have av: "availableTeams ?st = []" using assms(1) by (simp add: availableTeams_def)
  let ?g = "\<lparr> g_id = Suc (groups_seq db), g_name = ''Team '' @ toString (length (teams st) + 1),
              g_created_at = add_db_now env \<rparr>"
  have a: "assign_team env db ?st =
        Inr (g_id ?g, g_name ?g,
             ?st \<lparr> teams := teams ?st @ [\<lparr> team_id = g_id ?g, team_name = g_name ?g, team_members = [] \<rparr>] \<rparr>,
             db \<lparr> groups := groups db @ [?g], groups_seq := Suc (groups_seq db) \<rparr>)"
    using assms(2,7) by (simp add: assign_team_def av insert_group_def Let_def)
  show ?thesis
    using assms(3,4,5,6)
    by (simp add: handleAddParticipant_def a insert_participant_def Let_def)
qed

lemma registered_step_ids:
  assumes "availableTeams st \<noteq> []" and "trim nm \<noteq> []" and "\<not> isAddingParticipant st"
    and "handleAddParticipant env usr db (st \<lparr> newParticipantName := nm \<rparr>) = (None, st', db')"
  shows "map team_id (teams st') = map team_id (teams st)"
proof -
  let ?st = "st \<lparr> newParticipantName := nm \<rparr>"
  have av: "availableTeams ?st = availableTeams st" by (simp add: availableTeams_def)
  from assms(2,3) have "trim (newParticipantName ?st) \<noteq> []" "\<not> isAddingParticipant ?st" by simp_all
  from registration_result [OF this assms(4)] assms(1) av obtain p where
      "teams st' = add_to_team (team_id (availableTeams st ! random_index env)) (local_participant p) (teams st)"
    by auto
  then show ?thesis by simp
qed

lemma register_run_succeeds:
  assumes "teams_ok k st" and "k + m \<le> MAX_MEMBERS_PER_TEAM * length (teams st)"
    and "set (map team_id (teams st)) \<subseteq> set (map g_id (groups db))"
    and "\<not> participant_insert_fails env" and "random_index env = 0"
    and "trim nm \<noteq> []" and "length (trim nm) \<le> 100"
  shows "fst (register_all (replicate m (env, nm)) None st db) = replicate m None"
  using assms(1,2,3)
proof (induction m arbitrary: k st db)
  case 0
  then show ?case by simp
next
  case (Suc m)
  let ?st = "st \<lparr> newParticipantName := nm \<rparr>"
  from Suc.prems(1) have cap: "list_all (\<lambda>t. length (team_members t) \<le> MAX_MEMBERS_PER_TEAM) (teams st)"
    and tot: "total_members (teams st) = k" and idle: "\<not> isAddingParticipant st"
    by (simp_all add: teams_ok_def)
  from Suc.prems(2) tot have "total_members (teams st) \<noteq> MAX_MEMBERS_PER_TEAM * length (teams st)"
    by simp
  with cap have room: "availableTeams st \<noteq> []" by (simp add: available_iff_room)
  then have i: "random_index env < length (availableTeams st)" by (simp add: assms(5))
  obtain res st1 db1 where h: "handleAddParticipant env None db ?st = (res, st1, db1)"
    by (cases "handleAddParticipant env None db ?st")
  from registration_succeeds_drawn [OF assms(4) i assms(6,7) idle Suc.prems(3)] h
  have res: "res = None" by simp
  with h have h': "handleAddParticipant env None db ?st = (None, st1, db1)" by simp
  note s = registered_step [OF Suc.prems(1) room assms(6) h']
  from s have ok1: "teams_ok (Suc k) st1" and len1: "length (teams st1) = length (teams st)"
    and g1: "groups db1 = groups db"
    by simp_all
  have ids: "map team_id (teams st1) = map team_id (teams st)"
    using room assms(6) idle h' by (rule registered_step_ids)
  from Suc.prems(2) len1 have b: "Suc k + m \<le> MAX_MEMBERS_PER_TEAM * length (teams st1)" by simp
  from Suc.prems(3) ids g1 have fk: "set (map team_id (teams st1)) \<subseteq> set (map g_id (groups db1))"
    by simp
  from Suc.IH [OF ok1 b fk] have "fst (register_all (replicate m (env, nm)) None st1 db1) = replicate m None" .
  then obtain st2 db2 where "register_all (replicate m (env, nm)) None st1 db1 = (replicate m None, st2, db2)"
    by (cases "register_all (replicate m (env, nm)) None st1 db1") simp
  with h' show ?case by simp
qed

lemma ex_default_facts:
  "map team_members (teams ex_teams_default) = replicate DEFAULT_TEAMS []"
  "distinct (map team_id (teams ex_teams_default))"
  "\<not> isAddingParticipant ex_teams_default"
  "set (map team_id (teams ex_teams_default)) \<subseteq> set (map g_id (groups ex_db_default))"
  by (simp_all add: ex_teams_default_def ex_db_default_def DEFAULT_TEAMS_def comp_def map_replicate_const)

lemma ex_env_facts:
  "\<not> participant_insert_fails ex_add_env" "\<not> group_insert_fails ex_add_env" "random_index ex_add_env = 0"
  by (simp_all add: ex_add_env_def)

lemma ex_run:
  "ex_run_result = (replicate 40 None, ex_state_40, ex_db_40)"
proof -
  note ok = empty_teams_ok [OF ex_default_facts(1,2,3)]
  have b: "0 + 40 \<le> MAX_MEMBERS_PER_TEAM * length (teams ex_teams_default)"
    by (simp add: ok(2) MAX_MEMBERS_PER_TEAM_def DEFAULT_TEAMS_def)
  have "fst (register_all (replicate 40 (ex_add_env, ''Sofea'')) None ex_teams_default ex_db_default)
          = replicate 40 None"
    using ok(1) b ex_default_facts(4) ex_env_facts(1,3)
    by (rule register_run_succeeds) (simp_all add: ex_trim)
  then have "fst ex_run_result = replicate 40 None"
    by (simp add: ex_run_result_def ex_registrations_def)
  then show ?thesis
    unfolding ex_state_40_def ex_db_40_def by (metis prod.collapse)
qed

lemma ex_names: "length ex_registrations = 40" "list_all (\<lambda>(env, nm). trim nm \<noteq> []) ex_registrations"
  by (simp_all add: ex_registrations_def ex_trim list_all_iff)

lemma ex_41:
  "ex_result_41 = (None, fst (snd ex_result_41), snd (snd ex_result_41))"
proof -
  note ok = empty_teams_ok [OF ex_default_facts(1,2,3)]
  have b: "0 + length ex_registrations \<le> MAX_MEMBERS_PER_TEAM * length (teams ex_teams_default)"
    by (simp add: ok(2) ex_names MAX_MEMBERS_PER_TEAM_def DEFAULT_TEAMS_def)
  have run: "register_all ex_registrations None ex_teams_default ex_db_default =
               (replicate (length ex_registrations) None, ex_state_40, ex_db_40)"
    using ex_run by (simp add: ex_run_result_def ex_names)
  note f = register_run [OF ok(1) b ex_names(2) run]
  from f have okb: "teams_ok 40 ex_state_40" and lenb: "length (teams ex_state_40) = 8"
    by (simp_all add: ex_names ok(2) DEFAULT_TEAMS_def)
  from okb have "list_all (\<lambda>t. length (team_members t) \<le> MAX_MEMBERS_PER_TEAM) (teams ex_state_40)"
    "total_members (teams ex_state_40) = MAX_MEMBERS_PER_TEAM * length (teams ex_state_40)"
    "\<not> isAddingParticipant ex_state_40"
    by (simp_all add: teams_ok_def lenb MAX_MEMBERS_PER_TEAM_def)
  then have full: "availableTeams ex_state_40 = []" and idle: "\<not> isAddingParticipant ex_state_40"
    by (simp_all add: available_iff_room)
  have d: "length (toString (length (teams ex_state_40) + 1)) \<le> 45"
    using toString_9 by (simp add: lenb)
  have "fst ex_result_41 = None"
    unfolding ex_result_41_def
    using full ex_env_facts(2,1) _ _ idle d
    by (rule registration_succeeds_created) (simp_all add: ex_trim)
  then show ?thesis by (metis prod.collapse)
qed

theorem registration_assigns_or_creates_witness:
  "map team_members (teams ex_teams_default) = replicate DEFAULT_TEAMS [] \<and>
   distinct (map team_id (teams ex_teams_default)) \<and> \<not> isAddingParticipant ex_teams_default \<and>
   length ex_registrations = 40 \<and> list_all (\<lambda>(env, nm). trim nm \<noteq> []) ex_registrations \<and>
   register_all ex_registrations None ex_teams_default ex_db_default =
     (replicate 40 None, ex_state_40, ex_db_40) \<and>
   trim ''Sofea'' \<noteq> [] \<and>
   fst ex_result_41 = None \<and>
   groups ex_db_40 = groups ex_db_default \<and>
   length (participants ex_db_40) = length (participants ex_db_default) + 40 \<and>
   length (teams ex_state_40) = 8 \<and>
   (\<exists>g p. groups (snd (snd ex_result_41)) = groups ex_db_40 @ [g] \<and> g_name g = ''Team 9'' \<and>
          participants (snd (snd ex_result_41)) = participants ex_db_40 @ [p] \<and>
          p_group_id p = Some (g_id g))"
proof -
  have run: "register_all ex_registrations None ex_teams_default ex_db_default =
               (replicate 40 None, ex_state_40, ex_db_40)"
    using ex_run by (simp add: ex_run_result_def)
  have nm: "trim ''Sofea'' \<noteq> []" by (simp add: ex_trim)
  have r: "handleAddParticipant ex_add_env None ex_db_40 (ex_state_40 \<lparr> newParticipantName := ''Sofea'' \<rparr>) =
             (None, fst (snd ex_result_41), snd (snd ex_result_41))"
    using ex_41 by (simp add: ex_result_41_def)
  have f: "fst ex_result_41 = None" using ex_41 by (metis fst_conv)
  note t = registration_assigns_or_creates
    [where sta = ex_teams_default and xs = ex_registrations and usr = None and dba = ex_db_default
       and stb = ex_state_40 and dbb = ex_db_40 and nm = "''Sofea''" and envc = ex_add_env
       and stc = "fst (snd ex_result_41)" and dbc = "snd (snd ex_result_41)"]
  from t ex_default_facts(1,2,3) ex_names run nm r
  have "groups ex_db_40 = groups ex_db_default \<and>
      length (participants ex_db_40) = length (participants ex_db_default) + 40 \<and>
      length (teams ex_state_40) = 8 \<and>
      (\<exists>g p. groups (snd (snd ex_result_41)) = groups ex_db_40 @ [g] \<and> g_name g = ''Team 9'' \<and>
             participants (snd (snd ex_result_41)) = participants ex_db_40 @ [p] \<and>
             p_group_id p = Some (g_id g))"
    by blast
  with ex_default_facts(1,2,3) ex_names run nm f show ?thesis by blast
qed


lemma single_map: "single (map h ys) = (case single ys of Inr r \<Rightarrow> Inr (h r) | Inl e \<Rightarrow> Inl e)"
  by (cases ys rule: list.exhaust; simp add: single_def split: list.splits)



























end
